theory Spec2Isabelle
  imports Complex_Main "HOL-Library.Char_ord" "HOL-Library.List_Lexorder"
    "HOL-Library.Product_Lexorder"
begin

section \<open>Values, rows and frames\<close>

text \<open>
  A clock reading (\<open>datetime.now(timezone.utc)\<close>) and a parsed pandas timestamp:
  the calendar fields in UTC.
\<close>

record datetime =
  year :: nat
  month :: nat
  day :: nat
  hour :: nat
  minute :: nat
  second :: nat
  microsecond :: nat

text \<open>
  A cell of a pandas DataFrame. Numbers are exact rationals (the float64 rounding
  noise of pandas is not modelled). A missing cell (NaN, None, NaT) is \<open>None\<close> in
  the row, so \<open>isnull\<close> of column \<open>c\<close> in row \<open>r\<close> is \<open>r c = None\<close>.
\<close>

datatype cell = Str string | Num rat | Bool bool | Time datetime | Date nat nat nat

type_synonym row = "string \<rightharpoonup> cell"

record frame =
  columns :: "string list"
  rows :: "row list"

datatype error = KeyError | TypeError | ValueError | JSONDecodeError

section \<open>storage/local\_storage.py: the processing ledger\<close>

text \<open>
  The content of \<open>.state/<domain>_processed.json\<close> as \<open>set(json.load(f))\<close> sees it:
  \<open>Listed xs\<close> is a JSON array of strings (what \<open>_save_processed_state\<close> writes),
  \<open>Corrupt\<close> is content that \<open>json.load\<close> rejects.
\<close>

datatype ledger_file = Corrupt | Listed "string list"

text \<open>
  The part of the file system and of the environment the pipeline touches.
  \<^item> \<open>bronze d\<close>: \<open>None\<close> when \<open>datalake/bronze/d\<close> does not exist, otherwise the CSV
    files below it, each path (as \<open>str(f)\<close> prints it) with what \<open>pd.read_csv\<close>
    returns for it (\<open>None\<close>: \<open>read_csv\<close> raises).
  \<^item> \<open>state_files d\<close>: the ledger file of domain \<open>d\<close>, \<open>None\<close> when it does not exist.
  \<^item> \<open>silver d\<close>: \<open>None\<close> when \<open>datalake/silver/d\<close> does not exist, otherwise the
    Parquet files below it.
  \<^item> \<open>gold\<close>: the Parquet files under \<open>datalake/gold\<close>, by path.
  \<^item> \<open>clock\<close>: the readings the next calls of \<open>datetime.now(timezone.utc)\<close> return.
\<close>

record world =
  bronze :: "string \<Rightarrow> (string \<times> frame option) list option"
  state_files :: "string \<rightharpoonup> ledger_file"
  silver :: "string \<Rightarrow> (string \<times> frame) list option"
  gold :: "(string \<times> frame) list"
  clock :: "nat \<Rightarrow> datetime"

text \<open>\<open>_utcnow()\<close>: read the clock once.\<close>

definition utcnow :: "world \<Rightarrow> datetime \<times> world" where
  "utcnow st = (clock st 0, st\<lparr>clock := \<lambda>n. clock st (Suc n)\<rparr>)"

text \<open>
  \<open>sorted(...)\<close> on \<open>Path\<close> objects compares the paths component by component.
\<close>

fun split_on :: "char \<Rightarrow> string \<Rightarrow> string list" where
  "split_on c [] = [[]]"
| "split_on c (x # xs) =
     (if x = c then [] # split_on c xs
      else (case split_on c xs of p # ps \<Rightarrow> (x # p) # ps | [] \<Rightarrow> [[x]]))"

definition sorted_paths :: "string list \<Rightarrow> string list" where
  "sorted_paths ps = sort_key (split_on CHR ''/'') ps"

definition load_processed_state :: "string \<Rightarrow> world \<Rightarrow> error + string set" where
  "load_processed_state domain st =
     (case state_files st domain of
        None \<Rightarrow> Inr {}
      | Some Corrupt \<Rightarrow> Inl JSONDecodeError
      | Some (Listed xs) \<Rightarrow> Inr (set xs))"

definition save_processed_state :: "string \<Rightarrow> string set \<Rightarrow> world \<Rightarrow> world" where
  "save_processed_state domain processed st =
     st\<lparr>state_files := (state_files st)(domain \<mapsto> Listed (sorted_list_of_set processed))\<rparr>"

definition get_unprocessed_bronze_files :: "string \<Rightarrow> world \<Rightarrow> error + string list" where
  "get_unprocessed_bronze_files domain st =
     (case bronze st domain of
        None \<Rightarrow> Inr []
      | Some files \<Rightarrow>
          (case load_processed_state domain st of
             Inl e \<Rightarrow> Inl e
           | Inr processed \<Rightarrow>
               Inr (filter (\<lambda>f. f \<notin> processed) (sorted_paths (map fst files)))))"

definition mark_bronze_files_processed :: "string \<Rightarrow> string list \<Rightarrow> world \<Rightarrow> error + world" where
  "mark_bronze_files_processed domain files st =
     (case load_processed_state domain st of
        Inl e \<Rightarrow> Inl e
      | Inr processed \<Rightarrow> Inr (save_processed_state domain (processed \<union> set files) st))"

section \<open>Strings and numbers of the Python runtime\<close>

text \<open>
  \<open>str.strip()\<close> removes leading and trailing whitespace (the ASCII whitespace
  characters; strings are byte strings here).
\<close>

definition is_space :: "char \<Rightarrow> bool" where
  "is_space c = ((9 \<le> (of_char c :: nat) \<and> (of_char c :: nat) \<le> 13) \<or>
                 (28 \<le> (of_char c :: nat) \<and> (of_char c :: nat) \<le> 32))"

definition strip :: "string \<Rightarrow> string" where
  "strip s = rev (dropWhile is_space (rev (dropWhile is_space s)))"

text \<open>Decimal numerals, and the zero-padded \<open>:02d\<close>, \<open>%Y\<close>, \<open>%m\<close> ... fields.\<close>

fun dec :: "nat \<Rightarrow> string" where
  "dec n = (if n < 10 then [''0123456789'' ! n] else dec (n div 10) @ [''0123456789'' ! (n mod 10)])"

declare dec.simps [simp del]

definition pad :: "nat \<Rightarrow> nat \<Rightarrow> string" where
  "pad w n = replicate (w - length (dec n)) CHR ''0'' @ dec n"

text \<open>\<open>dt.strftime('%Y%m%d_%H%M%S')\<close>\<close>

definition strftime :: "datetime \<Rightarrow> string" where
  "strftime dt = pad 4 (year dt) @ pad 2 (month dt) @ pad 2 (day dt) @ ''_'' @
                 pad 2 (hour dt) @ pad 2 (minute dt) @ pad 2 (second dt)"

text \<open>\<open>dt.isoformat()\<close> of a UTC-aware datetime.\<close>

definition isoformat :: "datetime \<Rightarrow> string" where
  "isoformat dt = pad 4 (year dt) @ ''-'' @ pad 2 (month dt) @ ''-'' @ pad 2 (day dt) @ ''T'' @
                  pad 2 (hour dt) @ '':'' @ pad 2 (minute dt) @ '':'' @ pad 2 (second dt) @
                  (if microsecond dt = 0 then [] else ''.'' @ pad 6 (microsecond dt)) @ ''+00:00''"

text \<open>\<open>_hive_path(layer_dir, domain, dt)\<close>, relative to \<open>DATALAKE_DIR\<close>.\<close>

definition hive_path :: "string \<Rightarrow> string \<Rightarrow> datetime \<Rightarrow> string" where
  "hive_path layer domain dt =
     layer @ ''/'' @ domain @ ''/year='' @ dec (year dt) @ ''/month='' @ pad 2 (month dt) @
     ''/day='' @ pad 2 (day dt)"

text \<open>
  \<open>round(2)\<close> of numpy: scale by 100, round to the nearest integer with ties going to
  the even neighbour, scale back.
\<close>

definition rint :: "rat \<Rightarrow> int" where
  "rint y = (let f = \<lfloor>y\<rfloor>; d = y - of_int f in
             if d < 1 / 2 then f else if 1 / 2 < d then f + 1
             else if even f then f else f + 1)"

definition round2 :: "rat \<Rightarrow> rat" where
  "round2 x = of_int (rint (x * 100)) / 100"

section \<open>pipeline/bronze\_to\_silver.py\<close>

definition VALID_EVENT_TYPES :: "string list" where
  "VALID_EVENT_TYPES = [''login'', ''browse'', ''add_to_cart'', ''checkout'', ''logout'']"

definition VALID_MOVEMENT_TYPES :: "string list" where
  "VALID_MOVEMENT_TYPES = [''inbound'', ''outbound'', ''adjustment'']"

text \<open>
  \<open>df[col] = pd.to_datetime(df[col], utc=True, errors="coerce")\<close>. The parser of pandas
  is a parameter: \<open>parse v\<close> is the timestamp read from the cell \<open>v\<close>, \<open>None\<close> when
  it cannot be read, which \<open>errors="coerce"\<close> turns into NaT.
\<close>

definition to_datetime :: "(cell \<Rightarrow> datetime option) \<Rightarrow> string \<Rightarrow> row \<Rightarrow> row" where
  "to_datetime parse col r =
     r(col := (case r col of None \<Rightarrow> None | Some v \<Rightarrow> map_option Time (parse v)))"

text \<open>
  \<open>df.drop_duplicates(subset=[key])\<close> (\<open>keep="first"\<close>): a row is dropped when an
  earlier row has the same key cell; missing keys count as equal to each other.
\<close>

fun drop_dups :: "string \<Rightarrow> cell option list \<Rightarrow> row list \<Rightarrow> row list" where
  "drop_dups key seen [] = []"
| "drop_dups key seen (r # rs) =
     (if r key \<in> set seen then drop_dups key seen rs
      else r # drop_dups key (r key # seen) rs)"

definition drop_duplicates :: "string \<Rightarrow> row list \<Rightarrow> row list" where
  "drop_duplicates key rs = drop_dups key [] rs"

text \<open>\<open>errors[mask] += tag\<close> on the Series of per-row error strings.\<close>

definition add_error :: "(row \<Rightarrow> bool) \<Rightarrow> string \<Rightarrow> row list \<Rightarrow> string list \<Rightarrow> string list" where
  "add_error msk tag rs errors = map2 (\<lambda>r e. if msk r then e @ tag else e) rs errors"

text \<open>
  \<open>nulls = df[required_cols].isnull()\<close>
  \<open>for col in required_cols: errors[nulls[col]] += f"NULL:{col}; "\<close>
\<close>

definition null_errors :: "string list \<Rightarrow> row list \<Rightarrow> string list \<Rightarrow> string list" where
  "null_errors required_cols rs errors =
     foldl (\<lambda>errs col. add_error (\<lambda>r. r col = None) (''NULL:'' @ col @ ''; '') rs errs)
       errors required_cols"

text \<open>Assigning a whole column: the column is appended unless the frame has it.\<close>

definition set_column :: "string \<Rightarrow> string list \<Rightarrow> string list" where
  "set_column c cols = (if c \<in> set cols then cols else cols @ [c])"

text \<open>
  \<open>df["is_valid"] = errors.str.strip() == ""\<close>
  \<open>df["validation_errors"] = errors.str.strip()\<close>
  \<open>df["processed_at"] = datetime.now(timezone.utc).isoformat()\<close>
\<close>

definition finalise :: "datetime \<Rightarrow> string list \<Rightarrow> row list \<Rightarrow> string list \<Rightarrow> frame" where
  "finalise now cols rs errors =
     \<lparr>columns = set_column ''processed_at'' (set_column ''validation_errors''
                  (set_column ''is_valid'' cols)),
      rows = map2 (\<lambda>r e. r(''is_valid'' \<mapsto> Bool (strip e = []),
                           ''validation_errors'' \<mapsto> Str (strip e),
                           ''processed_at'' \<mapsto> Str (isoformat now))) rs errors\<rparr>"

subsection \<open>\_process\_sales\<close>

definition required_cols_sales :: "string list" where
  "required_cols_sales = [''sale_id'', ''timestamp'', ''customer_id'', ''product_id'',
     ''quantity'', ''unit_price'', ''total_amount'']"

text \<open>\<open>computable = df["quantity"].notna() & df["unit_price"].notna()\<close>\<close>

definition computable :: "row \<Rightarrow> bool" where
  "computable r = (r ''quantity'' \<noteq> None \<and> r ''unit_price'' \<noteq> None)"

text \<open>
  The arithmetic of step 4 needs numbers: on a row where it is evaluated, a cell of
  \<open>quantity\<close>, \<open>unit_price\<close> or \<open>total_amount\<close> that is present and not a number makes
  pandas raise \<open>TypeError\<close>.
\<close>

fun is_number :: "cell option \<Rightarrow> bool" where
  "is_number None = True"
| "is_number (Some (Num x)) = True"
| "is_number (Some c) = False"

definition arithmetic_ok :: "row \<Rightarrow> bool" where
  "arithmetic_ok r = (is_number (r ''quantity'') \<and> is_number (r ''unit_price'') \<and>
                      is_number (r ''total_amount''))"

text \<open>\<open>expected = (quantity * unit_price).round(2)\<close> on the computable rows.\<close>

definition expected :: "row \<Rightarrow> rat option" where
  "expected r = (case (r ''quantity'', r ''unit_price'') of
                   (Some (Num q), Some (Num p)) \<Rightarrow> Some (round2 (q * p))
                 | _ \<Rightarrow> None)"

text \<open>
  \<open>mismatch = (total_amount - expected).abs() > 0.01\<close>; a comparison with NaN is false.
\<close>

definition mismatch :: "row \<Rightarrow> bool" where
  "mismatch r = (case (r ''total_amount'', expected r) of
                   (Some (Num t), Some e) \<Rightarrow> 1 / 100 < \<bar>t - e\<bar>
                 | _ \<Rightarrow> False)"

text \<open>\<open>df.loc[computable & mismatch, "total_amount"] = expected[mismatch]\<close>\<close>

definition fix_total_amount :: "row \<Rightarrow> row" where
  "fix_total_amount r =
     (if computable r \<and> mismatch r then r(''total_amount'' := map_option Num (expected r))
      else r)"

definition process_sales :: "(cell \<Rightarrow> datetime option) \<Rightarrow> datetime \<Rightarrow> frame \<Rightarrow> error + frame" where
  "process_sales parse now df =
     (if \<not> set required_cols_sales \<subseteq> set (columns df) then Inl KeyError
      else
        let parsed = map (to_datetime parse ''timestamp'') (rows df);
            deduped = drop_duplicates ''sale_id'' parsed;
            errors = null_errors required_cols_sales deduped (replicate (length deduped) [])
        in if \<not> list_all arithmetic_ok (filter computable deduped) then Inl TypeError
           else Inr (finalise now (columns df) (map fix_total_amount deduped) errors))"

subsection \<open>\_process\_customer\_events\<close>

definition required_cols_events :: "string list" where
  "required_cols_events = [''event_id'', ''timestamp'', ''customer_id'', ''session_id'',
     ''event_type'']"

text \<open>\<open>df[col].isin(values)\<close> on one cell.\<close>

fun isin :: "string list \<Rightarrow> cell option \<Rightarrow> bool" where
  "isin vs (Some (Str s)) = (s \<in> set vs)"
| "isin vs c = False"

definition process_customer_events ::
  "(cell \<Rightarrow> datetime option) \<Rightarrow> datetime \<Rightarrow> frame \<Rightarrow> error + frame" where
  "process_customer_events parse now df =
     (if \<not> set required_cols_events \<subseteq> set (columns df) then Inl KeyError
      else
        let parsed = map (to_datetime parse ''timestamp'') (rows df);
            deduped = drop_duplicates ''event_id'' parsed;
            errors = null_errors required_cols_events deduped (replicate (length deduped) []);
            errors = add_error
              (\<lambda>r. \<not> isin VALID_EVENT_TYPES (r ''event_type'') \<and> r ''event_type'' \<noteq> None)
              ''INVALID_EVENT_TYPE; '' deduped errors
        in Inr (finalise now (columns df) deduped errors))"

subsection \<open>\_process\_inventory\<close>

definition required_cols_inventory :: "string list" where
  "required_cols_inventory = [''movement_id'', ''timestamp'', ''product_id'', ''warehouse_id'',
     ''movement_type'', ''quantity'']"

text \<open>
  \<open>bad_qty = df["quantity"].notna() & (pd.to_numeric(df["quantity"], errors="coerce") <= 0)\<close>.
  The number reader of pandas is a parameter: \<open>numeric v\<close> is the number read from the cell
  \<open>v\<close>, \<open>None\<close> (NaN, for which the comparison is false) when it cannot be read.
\<close>

definition bad_qty :: "(cell \<Rightarrow> rat option) \<Rightarrow> row \<Rightarrow> bool" where
  "bad_qty numeric r =
     (case r ''quantity'' of None \<Rightarrow> False
      | Some v \<Rightarrow> (case numeric v of None \<Rightarrow> False | Some q \<Rightarrow> q \<le> 0))"

definition process_inventory ::
  "(cell \<Rightarrow> datetime option) \<Rightarrow> (cell \<Rightarrow> rat option) \<Rightarrow> datetime \<Rightarrow> frame \<Rightarrow> error + frame" where
  "process_inventory parse numeric now df =
     (if \<not> set required_cols_inventory \<subseteq> set (columns df) then Inl KeyError
      else
        let parsed = map (to_datetime parse ''timestamp'') (rows df);
            deduped = drop_duplicates ''movement_id'' parsed;
            errors = null_errors required_cols_inventory deduped (replicate (length deduped) []);
            errors = add_error
              (\<lambda>r. \<not> isin VALID_MOVEMENT_TYPES (r ''movement_type'') \<and> r ''movement_type'' \<noteq> None)
              ''INVALID_MOVEMENT_TYPE; '' deduped errors;
            errors = add_error (bad_qty numeric) ''NON_POSITIVE_QUANTITY; '' deduped errors
        in Inr (finalise now (columns df) deduped errors))"

section \<open>storage/local\_storage.py: the silver and gold layers\<close>

text \<open>Writing a file creates it, or replaces the content of the file at that path.\<close>

definition write_file :: "string \<Rightarrow> 'a \<Rightarrow> (string \<times> 'a) list \<Rightarrow> (string \<times> 'a) list" where
  "write_file p x fs = (p, x) # filter (\<lambda>e. fst e \<noteq> p) fs"

text \<open>\<open>pd.DataFrame()\<close>\<close>

definition empty_frame :: frame where
  "empty_frame = \<lparr>columns = [], rows = []\<rparr>"

text \<open>
  \<open>pd.concat(dfs, ignore_index=True)\<close>: the rows of all frames in order; the columns
  are the union of the frames' columns in order of first appearance (a cell of a column
  its frame lacks is missing).
\<close>

definition concat_frames :: "frame list \<Rightarrow> frame" where
  "concat_frames dfs =
     \<lparr>columns = foldl (\<lambda>cs c. set_column c cs) [] (concat (map columns dfs)),
      rows = concat (map rows dfs)\<rparr>"

definition save_to_silver :: "string \<Rightarrow> frame \<Rightarrow> world \<Rightarrow> string \<times> world" where
  "save_to_silver domain df st =
     (let (dt, st1) = utcnow st;
          dest_file = hive_path ''silver'' domain dt @ ''/'' @ domain @ ''_'' @ strftime dt @
                      ''.parquet''
      in (dest_file,
          st1\<lparr>silver := (silver st1)(domain :=
                 Some (write_file dest_file df
                         (case silver st1 domain of None \<Rightarrow> [] | Some fs \<Rightarrow> fs)))\<rparr>))"

definition read_from_silver :: "string \<Rightarrow> world \<Rightarrow> frame" where
  "read_from_silver domain st =
     (case silver st domain of
        None \<Rightarrow> empty_frame
      | Some fs \<Rightarrow>
          if fs = [] then empty_frame
          else concat_frames (map snd (sort_key (\<lambda>e. split_on CHR ''/'' (fst e)) fs)))"

definition save_to_gold :: "string \<Rightarrow> frame \<Rightarrow> world \<Rightarrow> string \<times> world" where
  "save_to_gold table_name df st =
     (let (dt, st1) = utcnow st;
          dest_file = ''gold/'' @ table_name @ ''/'' @ table_name @ ''_'' @ strftime dt @
                      ''.parquet''
      in (dest_file, st1\<lparr>gold := write_file dest_file df (gold st1)\<rparr>))"

section \<open>pipeline/bronze\_to\_silver.py: run\<close>

definition DOMAINS :: "string list" where
  "DOMAINS = [''sales'', ''customer_events'', ''inventory'']"

text \<open>
  The dictionary \<open>_PROCESSORS\<close>. A processor reads the clock once, for \<open>processed_at\<close>;
  its caller passes the reading.
\<close>

definition PROCESSORS ::
  "(cell \<Rightarrow> datetime option) \<Rightarrow> (cell \<Rightarrow> rat option) \<Rightarrow> string \<rightharpoonup> (datetime \<Rightarrow> frame \<Rightarrow> error + frame)" where
  "PROCESSORS parse numeric =
     [''sales'' \<mapsto> process_sales parse,
      ''customer_events'' \<mapsto> process_customer_events parse,
      ''inventory'' \<mapsto> process_inventory parse numeric]"

text \<open>
  \<open>for f in files: try: dfs.append(pd.read_csv(f)) except Exception: logger.error(...)\<close>
\<close>

definition read_csv_files :: "(string \<times> frame option) list \<Rightarrow> string list \<Rightarrow> frame list" where
  "read_csv_files dir files =
     concat (map (\<lambda>f. case map_of dir f of Some (Some df) \<Rightarrow> [df] | _ \<Rightarrow> []) files)"

text \<open>The body of the loop of \<open>run\<close> for one domain.\<close>

definition run_domain ::
  "(cell \<Rightarrow> datetime option) \<Rightarrow> (cell \<Rightarrow> rat option) \<Rightarrow> string \<Rightarrow> world \<Rightarrow> error + world" where
  "run_domain parse numeric domain st =
     (case get_unprocessed_bronze_files domain st of
        Inl e \<Rightarrow> Inl e
      | Inr files \<Rightarrow>
          if files = [] then Inr st
          else
            let dfs = read_csv_files (case bronze st domain of None \<Rightarrow> [] | Some dir \<Rightarrow> dir) files
            in if dfs = [] then Inr st
               else
                 let combined = concat_frames dfs in
                 (case PROCESSORS parse numeric domain of
                    None \<Rightarrow> Inl KeyError
                  | Some process \<Rightarrow>
                      let (now, st1) = utcnow st in
                      (case process now combined of
                         Inl e \<Rightarrow> Inl e
                       | Inr cleaned \<Rightarrow>
                           let (dest_file, st2) = save_to_silver domain cleaned st1
                           in mark_bronze_files_processed domain files st2)))"

fun run_domains ::
  "(cell \<Rightarrow> datetime option) \<Rightarrow> (cell \<Rightarrow> rat option) \<Rightarrow> string list \<Rightarrow> world \<Rightarrow> error + world" where
  "run_domains parse numeric [] st = Inr st"
| "run_domains parse numeric (domain # domains) st =
     (case run_domain parse numeric domain st of
        Inl e \<Rightarrow> Inl e
      | Inr st' \<Rightarrow> run_domains parse numeric domains st')"

definition run_bronze_to_silver ::
  "(cell \<Rightarrow> datetime option) \<Rightarrow> (cell \<Rightarrow> rat option) \<Rightarrow> world \<Rightarrow> error + world" where
  "run_bronze_to_silver parse numeric st = run_domains parse numeric DOMAINS st"

section \<open>pipeline/silver\_to\_gold.py\<close>

subsection \<open>The pandas operations it uses\<close>

text \<open>\<open>df.empty\<close>: no rows or no columns.\<close>

definition frame_empty :: "frame \<Rightarrow> bool" where
  "frame_empty df = (rows df = [] \<or> columns df = [])"

text \<open>\<open>df["is_valid"] == True\<close> on one row.\<close>

definition is_valid_row :: "row \<Rightarrow> bool" where
  "is_valid_row r = (r ''is_valid'' = Some (Bool True))"

text \<open>
  \<open>valid["timestamp"] = pd.to_datetime(valid["timestamp"], utc=True, errors="coerce")\<close>
  \<open>valid["date"] = valid["timestamp"].dt.date\<close>
\<close>

definition date_of :: "cell option \<Rightarrow> cell option" where
  "date_of c = (case c of Some (Time t) \<Rightarrow> Some (Date (year t) (month t) (day t)) | _ \<Rightarrow> None)"

definition with_date :: "(cell \<Rightarrow> datetime option) \<Rightarrow> frame \<Rightarrow> error + frame" where
  "with_date parse df =
     (if ''timestamp'' \<notin> set (columns df) then Inl KeyError
      else Inr \<lparr>columns = set_column ''date'' (columns df),
                rows = map (\<lambda>r. (to_datetime parse ''timestamp'' r)
                                   (''date'' := date_of (to_datetime parse ''timestamp'' r ''timestamp'')))
                         (rows df)\<rparr>)"

text \<open>\<open>valid["quantity"] = pd.to_numeric(valid["quantity"], errors="coerce")\<close>\<close>

definition to_numeric :: "(cell \<Rightarrow> rat option) \<Rightarrow> string \<Rightarrow> frame \<Rightarrow> error + frame" where
  "to_numeric numeric col df =
     (if col \<notin> set (columns df) then Inl KeyError
      else Inr (df\<lparr>rows := map (\<lambda>r. r(col := (case r col of None \<Rightarrow> None
                                               | Some v \<Rightarrow> map_option Num (numeric v))))
                             (rows df)\<rparr>))"

text \<open>
  The reductions of \<open>.agg(out=(col, fn))\<close>. Missing cells are skipped. \<open>sum\<close> and
  \<open>mean\<close> need numbers: a present cell that is not a number is modelled as \<open>TypeError\<close>.
  The sum of no numbers is 0, the mean of no numbers is missing.
\<close>

datatype agg = Sum | Mean | Count | Nunique

fun numbers :: "cell option list \<Rightarrow> error + rat list" where
  "numbers [] = Inr []"
| "numbers (None # cs) = numbers cs"
| "numbers (Some (Num x) # cs) = (case numbers cs of Inl e \<Rightarrow> Inl e | Inr xs \<Rightarrow> Inr (x # xs))"
| "numbers (Some c # cs) = Inl TypeError"

definition aggregate :: "agg \<Rightarrow> cell option list \<Rightarrow> error + cell option" where
  "aggregate fn cs =
     (case fn of
        Sum \<Rightarrow> (case numbers cs of Inl e \<Rightarrow> Inl e
                | Inr xs \<Rightarrow> Inr (Some (Num (sum_list xs))))
      | Mean \<Rightarrow> (case numbers cs of Inl e \<Rightarrow> Inl e
                 | Inr xs \<Rightarrow> Inr (if xs = [] then None
                                   else Some (Num (sum_list xs / of_nat (length xs)))))
      | Count \<Rightarrow> Inr (Some (Num (of_nat (length (filter (\<lambda>c. c \<noteq> None) cs)))))
      | Nunique \<Rightarrow> Inr (Some (Num (of_nat (length (remdups (filter (\<lambda>c. c \<noteq> None) cs)))))))"

text \<open>\<open>.round(2)\<close> on one cell of an aggregated column.\<close>

fun round_cell :: "cell option \<Rightarrow> cell option" where
  "round_cell (Some (Num x)) = Some (Num (round2 x))"
| "round_cell c = c"

text \<open>
  The order in which \<open>groupby\<close> and \<open>pivot_table\<close> sort their groups: by the key
  cells, numbers by value, strings by code point, dates and timestamps by time (cells
  of different kinds do not occur in one key column of this pipeline).
\<close>

fun key_order :: "cell option \<Rightarrow> nat \<times> rat \<times> string \<times> nat list" where
  "key_order None = (0, 0, [], [])"
| "key_order (Some (Bool b)) = (1, (if b then 1 else 0), [], [])"
| "key_order (Some (Num x)) = (1, x, [], [])"
| "key_order (Some (Str s)) = (2, 0, s, [])"
| "key_order (Some (Date y m d)) = (3, 0, [], [y, m, d])"
| "key_order (Some (Time t)) =
     (4, 0, [], [year t, month t, day t, hour t, minute t, second t, microsecond t])"

text \<open>
  The groups of \<open>groupby(keys)\<close>: rows with a missing key cell are left out
  (\<open>dropna=True\<close>); one group per distinct key, in sorted order.
\<close>

definition keyed_rows :: "string list \<Rightarrow> row list \<Rightarrow> row list" where
  "keyed_rows keys rs = filter (\<lambda>r. list_all (\<lambda>k. r k \<noteq> None) keys) rs"

definition groups :: "string list \<Rightarrow> row list \<Rightarrow> cell option list list" where
  "groups keys rs = sort_key (map key_order) (remdups (map (\<lambda>r. map r keys) (keyed_rows keys rs)))"

definition members :: "string list \<Rightarrow> row list \<Rightarrow> cell option list \<Rightarrow> row list" where
  "members keys rs g = filter (\<lambda>r. map r keys = g) (keyed_rows keys rs)"

text \<open>A row given by its column names and cells.\<close>

definition make_row :: "string list \<Rightarrow> cell option list \<Rightarrow> row" where
  "make_row cols vals c = (case map_of (zip cols vals) c of None \<Rightarrow> None | Some v \<Rightarrow> v)"

fun collect :: "(error + 'a) list \<Rightarrow> error + 'a list" where
  "collect [] = Inr []"
| "collect (x # xs) =
     (case x of Inl e \<Rightarrow> Inl e
      | Inr v \<Rightarrow> (case collect xs of Inl e \<Rightarrow> Inl e | Inr vs \<Rightarrow> Inr (v # vs)))"

text \<open>
  \<open>df.groupby(keys).agg(out1=(col1, fn1), ...)[.round(2)].reset_index()\<close>; an
  aggregation is (output column, input column, reduction).
\<close>

type_synonym aggspec = "string \<times> string \<times> agg"

definition agg_row :: "string list \<Rightarrow> aggspec list \<Rightarrow> bool \<Rightarrow> row list \<Rightarrow> cell option list \<Rightarrow> error + row" where
  "agg_row keys aggs rnd ms g =
     (case collect (map (\<lambda>a. aggregate (snd (snd a)) (map (\<lambda>r. r (fst (snd a))) ms)) aggs) of
        Inl e \<Rightarrow> Inl e
      | Inr vals \<Rightarrow>
          Inr (make_row (keys @ map fst aggs)
                 (g @ (if rnd then map round_cell vals else vals))))"

definition groupby_agg :: "string list \<Rightarrow> aggspec list \<Rightarrow> bool \<Rightarrow> frame \<Rightarrow> error + frame" where
  "groupby_agg keys aggs rnd df =
     (if \<not> set (keys @ map (\<lambda>a. fst (snd a)) aggs) \<subseteq> set (columns df) then Inl KeyError
      else
        (case collect (map (\<lambda>g. agg_row keys aggs rnd (members keys (rows df) g) g)
                         (groups keys (rows df))) of
           Inl e \<Rightarrow> Inl e
         | Inr out \<Rightarrow> Inr \<lparr>columns = keys @ map fst aggs, rows = out\<rparr>))"

text \<open>
  \<open>df.pivot_table(index=index, columns=col, values=values, aggfunc="sum",
  fill_value=0).reset_index()\<close>: one row per group of \<open>index\<close>, one column per value of
  \<open>col\<close> (the string values, sorted), holding the sum of \<open>values\<close> over the rows of
  the group with that value of \<open>col\<close>, and 0 where the group has none. Rows with a
  missing cell in \<open>index\<close> or \<open>col\<close> are left out. A value of \<open>col\<close> that is the
  name of an index column makes \<open>reset_index\<close> raise \<open>ValueError\<close>.
\<close>

definition labels :: "string \<Rightarrow> row list \<Rightarrow> string list" where
  "labels col rs = sort (remdups (concat (map (\<lambda>r. case r col of Some (Str s) \<Rightarrow> [s] | _ \<Rightarrow> []) rs)))"

definition pivot_row :: "string list \<Rightarrow> string \<Rightarrow> string \<Rightarrow> string list \<Rightarrow> row list \<Rightarrow> cell option list \<Rightarrow> error + row" where
  "pivot_row index col values ls ms g =
     (case collect (map (\<lambda>l. aggregate Sum
                               (map (\<lambda>r. r values) (filter (\<lambda>r. r col = Some (Str l)) ms))) ls) of
        Inl e \<Rightarrow> Inl e
      | Inr vals \<Rightarrow> Inr (make_row (index @ ls) (g @ vals)))"

definition pivot_table :: "string list \<Rightarrow> string \<Rightarrow> string \<Rightarrow> frame \<Rightarrow> error + frame" where
  "pivot_table index col values df =
     (if \<not> set (index @ [col, values]) \<subseteq> set (columns df) then Inl KeyError
      else
        let rs = keyed_rows [col] (rows df);
            ls = labels col (keyed_rows index rs)
        in if set ls \<inter> set index \<noteq> {} then Inl ValueError
           else
             (case collect (map (\<lambda>g. pivot_row index col values ls (members index rs g) g)
                              (groups index rs)) of
                Inl e \<Rightarrow> Inl e
              | Inr out \<Rightarrow> Inr \<lparr>columns = index @ ls, rows = out\<rparr>))"

text \<open>\<open>if col not in pivot.columns: pivot[col] = 0\<close>\<close>

definition ensure_column :: "string \<Rightarrow> frame \<Rightarrow> frame" where
  "ensure_column col df =
     (if col \<in> set (columns df) then df
      else \<lparr>columns = columns df @ [col], rows = map (\<lambda>r. r(col \<mapsto> Num 0)) (rows df)\<rparr>)"

text \<open>\<open>pivot["net_position"] = pivot["inbound"] - pivot["outbound"]\<close>\<close>

definition minus_cells :: "cell option \<Rightarrow> cell option \<Rightarrow> cell option" where
  "minus_cells a b = (case (a, b) of (Some (Num x), Some (Num y)) \<Rightarrow> Some (Num (x - y)) | _ \<Rightarrow> None)"

text \<open>
  \<open>df["generated_at"] = datetime.now(timezone.utc).isoformat()\<close> followed by
  \<open>save_to_gold(table_name, df)\<close>, which reads the clock again for the file name.
\<close>

definition stamp :: "datetime \<Rightarrow> frame \<Rightarrow> frame" where
  "stamp now df =
     \<lparr>columns = set_column ''generated_at'' (columns df),
      rows = map (\<lambda>r. r(''generated_at'' \<mapsto> Str (isoformat now))) (rows df)\<rparr>"

definition publish :: "string \<Rightarrow> frame \<Rightarrow> world \<Rightarrow> world" where
  "publish table_name df st =
     (let (now, st1) = utcnow st in snd (save_to_gold table_name (stamp now df) st1))"

subsection \<open>\_build\_daily\_sales\_summary\<close>

definition build_daily_sales_summary ::
  "(cell \<Rightarrow> datetime option) \<Rightarrow> frame \<Rightarrow> world \<Rightarrow> error + world" where
  "build_daily_sales_summary parse df st =
     (if frame_empty df then Inr st
      else if ''is_valid'' \<notin> set (columns df) then Inl KeyError
      else if frame_empty (df\<lparr>rows := filter is_valid_row (rows df)\<rparr>) then Inr st
      else
        (case with_date parse (df\<lparr>rows := filter is_valid_row (rows df)\<rparr>) of
           Inl e \<Rightarrow> Inl e
         | Inr valid \<Rightarrow>
        (case groupby_agg [''date'']
                [(''total_revenue'', ''total_amount'', Sum),
                 (''order_count'', ''sale_id'', Nunique),
                 (''avg_order_value'', ''total_amount'', Mean),
                 (''unique_customers'', ''customer_id'', Nunique)] True valid of
           Inl e \<Rightarrow> Inl e
         | Inr daily \<Rightarrow>
        let st1 = publish ''daily_sales_summary'' daily st in
        (case groupby_agg [''date'', ''category'']
                [(''category_revenue'', ''total_amount'', Sum),
                 (''category_orders'', ''sale_id'', Nunique),
                 (''avg_unit_price'', ''unit_price'', Mean)] True valid of
           Inl e \<Rightarrow> Inl e
         | Inr cat \<Rightarrow>
        let st2 = publish ''category_sales_summary'' cat st1 in
        (case groupby_agg [''date'', ''payment_method'']
                [(''payment_revenue'', ''total_amount'', Sum),
                 (''payment_count'', ''sale_id'', Nunique)] True valid of
           Inl e \<Rightarrow> Inl e
         | Inr pay \<Rightarrow>
             Inr (publish ''payment_method_summary'' pay st2))))))"

subsection \<open>\_build\_customer\_activity\_summary\<close>

definition build_customer_activity_summary ::
  "(cell \<Rightarrow> datetime option) \<Rightarrow> frame \<Rightarrow> world \<Rightarrow> error + world" where
  "build_customer_activity_summary parse df st =
     (if frame_empty df then Inr st
      else if ''is_valid'' \<notin> set (columns df) then Inl KeyError
      else if frame_empty (df\<lparr>rows := filter is_valid_row (rows df)\<rparr>) then Inr st
      else
        (case with_date parse (df\<lparr>rows := filter is_valid_row (rows df)\<rparr>) of
           Inl e \<Rightarrow> Inl e
         | Inr valid \<Rightarrow>
        (case groupby_agg [''date'', ''event_type'']
                [(''event_count'', ''event_id'', Count),
                 (''unique_customers'', ''customer_id'', Nunique),
                 (''unique_sessions'', ''session_id'', Nunique)] False valid of
           Inl e \<Rightarrow> Inl e
         | Inr events \<Rightarrow>
        let st1 = publish ''customer_activity_summary'' events st in
        (case groupby_agg [''date'', ''device_type'']
                [(''session_count'', ''session_id'', Nunique),
                 (''event_count'', ''event_id'', Count)] False valid of
           Inl e \<Rightarrow> Inl e
         | Inr devices \<Rightarrow>
             Inr (publish ''device_usage_summary'' devices st1)))))"

subsection \<open>\_build\_inventory\_summary\<close>

text \<open>
  The net position rollup: the pivot, the three movement columns made sure of, and
  \<open>net_position = inbound - outbound\<close>.
\<close>

definition inventory_net_position :: "frame \<Rightarrow> error + frame" where
  "inventory_net_position valid =
     (case pivot_table [''date'', ''product_id'', ''product_name'', ''warehouse_id'']
             ''movement_type'' ''quantity'' valid of
        Inl e \<Rightarrow> Inl e
      | Inr pivot \<Rightarrow>
          let pivot = ensure_column ''adjustment''
                        (ensure_column ''outbound'' (ensure_column ''inbound'' pivot))
          in Inr \<lparr>columns = set_column ''net_position'' (columns pivot),
                  rows = map (\<lambda>r. r(''net_position'' :=
                                        minus_cells (r ''inbound'') (r ''outbound'')))
                           (rows pivot)\<rparr>)"

definition build_inventory_summary ::
  "(cell \<Rightarrow> datetime option) \<Rightarrow> (cell \<Rightarrow> rat option) \<Rightarrow> frame \<Rightarrow> world \<Rightarrow> error + world" where
  "build_inventory_summary parse numeric df st =
     (if frame_empty df then Inr st
      else if ''is_valid'' \<notin> set (columns df) then Inl KeyError
      else if frame_empty (df\<lparr>rows := filter is_valid_row (rows df)\<rparr>) then Inr st
      else
        (case with_date parse (df\<lparr>rows := filter is_valid_row (rows df)\<rparr>) of
           Inl e \<Rightarrow> Inl e
         | Inr dated \<Rightarrow>
        (case to_numeric numeric ''quantity'' dated of
           Inl e \<Rightarrow> Inl e
         | Inr valid \<Rightarrow>
        (case groupby_agg [''date'', ''product_id'', ''product_name'', ''warehouse_id'',
                           ''movement_type'']
                [(''total_quantity'', ''quantity'', Sum),
                 (''total_cost'', ''unit_cost'', Sum),
                 (''movement_count'', ''movement_id'', Count)] True valid of
           Inl e \<Rightarrow> Inl e
         | Inr movement \<Rightarrow>
        let st1 = publish ''inventory_movement_summary'' movement st in
        (case inventory_net_position valid of
           Inl e \<Rightarrow> Inl e
         | Inr pivot \<Rightarrow>
             Inr (publish ''inventory_net_position'' pivot st1))))))"

subsection \<open>run\<close>

definition run_silver_to_gold ::
  "(cell \<Rightarrow> datetime option) \<Rightarrow> (cell \<Rightarrow> rat option) \<Rightarrow> world \<Rightarrow> error + world" where
  "run_silver_to_gold parse numeric st =
     (let sales_df = read_from_silver ''sales'' st;
          events_df = read_from_silver ''customer_events'' st;
          inv_df = read_from_silver ''inventory'' st
      in (case build_daily_sales_summary parse sales_df st of
            Inl e \<Rightarrow> Inl e
          | Inr st1 \<Rightarrow>
         (case build_customer_activity_summary parse events_df st1 of
            Inl e \<Rightarrow> Inl e
          | Inr st2 \<Rightarrow> build_inventory_summary parse numeric inv_df st2)))"

text \<open>Concrete worlds used by the examples below.\<close>

definition epoch :: datetime where
  "epoch = \<lparr>year = 2025, month = 1, day = 1, hour = 0, minute = 0, second = 0, microsecond = 0\<rparr>"

definition empty_world :: world where
  "empty_world = \<lparr>bronze = (\<lambda>d. None), state_files = Map.empty, silver = (\<lambda>d. None),
     gold = [], clock = (\<lambda>n. epoch)\<rparr>"

definition corrupt_ledger_world :: world where
  "corrupt_ledger_world = empty_world\<lparr>state_files := [''sales'' \<mapsto> Corrupt]\<rparr>"

section \<open>Notions used to state the properties\<close>

text \<open>The \<open>NULL:<col>; \<close> tags of the missing cells of a row, in the order of \<open>cols\<close>.\<close>

abbreviation null_tag_list :: "string list \<Rightarrow> row \<Rightarrow> string list" where
  "null_tag_list cols r \<equiv>
     map (\<lambda>c. ''NULL:'' @ c @ ''; '') (filter (\<lambda>c. r c = None) cols)"

abbreviation event_tags :: "row \<Rightarrow> string list" where
  "event_tags r \<equiv> null_tag_list required_cols_events r @
     (if \<not> isin VALID_EVENT_TYPES (r ''event_type'') \<and> r ''event_type'' \<noteq> None
      then [''INVALID_EVENT_TYPE; ''] else [])"

abbreviation inventory_tags :: "(cell \<Rightarrow> rat option) \<Rightarrow> row \<Rightarrow> string list" where
  "inventory_tags numeric r \<equiv> null_tag_list required_cols_inventory r @
     (if \<not> isin VALID_MOVEMENT_TYPES (r ''movement_type'') \<and> r ''movement_type'' \<noteq> None
      then [''INVALID_MOVEMENT_TYPE; ''] else []) @
     (if bad_qty numeric r then [''NON_POSITIVE_QUANTITY; ''] else [])"

text \<open>
  A cleaned row carries the tags \<open>tags\<close>: its \<open>validation_errors\<close> is their
  concatenation, stripped, and its \<open>is_valid\<close> says whether there is none.
\<close>

abbreviation tagged :: "row \<Rightarrow> string list \<Rightarrow> bool" where
  "tagged r tags \<equiv>
     r ''validation_errors'' = Some (Str (strip (concat tags))) \<and>
     r ''is_valid'' = Some (Bool (tags = []))"

text \<open>The rows a processor validates: timestamps parsed, duplicates dropped.\<close>

abbreviation deduped :: "(cell \<Rightarrow> datetime option) \<Rightarrow> string \<Rightarrow> frame \<Rightarrow> row list" where
  "deduped parse key df \<equiv>
     drop_duplicates key (map (to_datetime parse ''timestamp'') (rows df))"

text \<open>
  The output has one row per key of the input, and the row of a key is the first row of
  the input with that key, apart from the columns in \<open>touched\<close>.
\<close>

abbreviation keeps_first_occurrence :: "string \<Rightarrow> string list \<Rightarrow> row list \<Rightarrow> row list \<Rightarrow> bool" where
  "keeps_first_occurrence key touched input output \<equiv>
     distinct (map (\<lambda>r. r key) output) \<and>
     set (map (\<lambda>r. r key) output) = set (map (\<lambda>r. r key) input) \<and>
     (\<forall>r' \<in> set output. \<exists>r. find (\<lambda>s. s key = r' key) input = Some r \<and>
        (\<forall>c. c \<notin> set touched \<longrightarrow> r' c = r c))"


section \<open>Example inputs\<close>

text \<open>A parser and a number reader for the examples.\<close>

definition sample_parse :: "cell \<Rightarrow> datetime option" where
  "sample_parse v = (case v of Time t \<Rightarrow> Some t
     | Str s \<Rightarrow> if s = ''2025-01-01T00:00:00+00:00'' then Some epoch else None
     | _ \<Rightarrow> None)"

definition sample_numeric :: "cell \<Rightarrow> rat option" where
  "sample_numeric v = (case v of Num q \<Rightarrow> Some q | _ \<Rightarrow> None)"

definition sale :: "string \<Rightarrow> string \<Rightarrow> string \<Rightarrow> rat \<Rightarrow> rat \<Rightarrow> rat \<Rightarrow> row" where
  "sale sid ts cust q p t =
     [''sale_id'' \<mapsto> Str sid, ''timestamp'' \<mapsto> Str ts, ''customer_id'' \<mapsto> Str cust,
      ''product_id'' \<mapsto> Str ''PROD-101'', ''category'' \<mapsto> Str ''Electronics'',
      ''quantity'' \<mapsto> Num q, ''unit_price'' \<mapsto> Num p, ''total_amount'' \<mapsto> Num t]"

text \<open>
  A sale whose total 35.00 contradicts 3 \<times> 10.00, a second row with the same
  \<open>sale_id\<close>, and a sale with an unreadable timestamp and no quantity or total.
\<close>

definition sales_example :: frame where
  "sales_example =
     \<lparr>columns = [''sale_id'', ''timestamp'', ''customer_id'', ''product_id'', ''category'',
                 ''quantity'', ''unit_price'', ''total_amount''],
      rows = [sale ''s1'' ''2025-01-01T00:00:00+00:00'' ''c1'' 3 10 35,
              sale ''s1'' ''2025-01-01T00:00:00+00:00'' ''c2'' 1 5 5,
              (sale ''s2'' ''yesterday'' ''c3'' 2 4 8)
                (''quantity'' := None, ''total_amount'' := None)]\<rparr>"

definition event :: "string \<Rightarrow> string \<Rightarrow> string \<Rightarrow> string \<Rightarrow> row" where
  "event eid ts cust etype =
     [''event_id'' \<mapsto> Str eid, ''timestamp'' \<mapsto> Str ts, ''customer_id'' \<mapsto> Str cust,
      ''session_id'' \<mapsto> Str ''x1'', ''event_type'' \<mapsto> Str etype]"

definition events_example :: frame where
  "events_example =
     \<lparr>columns = [''event_id'', ''timestamp'', ''customer_id'', ''session_id'', ''event_type''],
      rows = [event ''e1'' ''2025-01-01T00:00:00+00:00'' ''c1'' ''login'',
              event ''e1'' ''2025-01-01T00:00:00+00:00'' ''c2'' ''logout'',
              event ''e2'' ''yesterday'' ''c3'' ''purchase'']\<rparr>"

definition movement :: "string \<Rightarrow> string \<Rightarrow> string \<Rightarrow> rat \<Rightarrow> row" where
  "movement mid ts mtype q =
     [''movement_id'' \<mapsto> Str mid, ''timestamp'' \<mapsto> Str ts, ''product_id'' \<mapsto> Str ''PROD-101'',
      ''product_name'' \<mapsto> Str ''Laptop'', ''warehouse_id'' \<mapsto> Str ''WH-NORTH-01'',
      ''movement_type'' \<mapsto> Str mtype, ''quantity'' \<mapsto> Num q]"

definition inventory_example :: frame where
  "inventory_example =
     \<lparr>columns = [''movement_id'', ''timestamp'', ''product_id'', ''product_name'',
                 ''warehouse_id'', ''movement_type'', ''quantity''],
      rows = [movement ''m1'' ''2025-01-01T00:00:00+00:00'' ''inbound'' 50,
              movement ''m1'' ''2025-01-01T00:00:00+00:00'' ''outbound'' 7,
              movement ''m2'' ''yesterday'' ''TRANSFER'' 0]\<rparr>"




text \<open>
  A bronze directory of the sales domain with two new files: one that \<open>read_csv\<close>
  reads, one that it rejects.
\<close>

definition mixed_world :: world where
  "mixed_world = empty_world\<lparr>bronze := (\<lambda>d. None)(''sales'' :=
     Some [(''bronze/sales/a.csv'', Some sales_example), (''bronze/sales/b.csv'', None)])\<rparr>"

text \<open>A world in which the clock is read several times within one second.\<close>

definition same_second_world :: world where
  "same_second_world = empty_world\<lparr>clock := (\<lambda>n. epoch\<lparr>microsecond := 1000 * n\<rparr>)\<rparr>"

definition snapshot :: "rat \<Rightarrow> frame" where
  "snapshot x = \<lparr>columns = [''total_revenue''], rows = [[''total_revenue'' \<mapsto> Num x]]\<rparr>"




section \<open>Properties of the ledger\<close>

lemma load_processed_state_finite:
  "load_processed_state domain st = Inr processed \<Longrightarrow> finite processed"
  by (auto simp: load_processed_state_def split: option.splits ledger_file.splits)

lemma load_after_save:
  "finite processed \<Longrightarrow>
   load_processed_state domain (save_processed_state domain processed st) = Inr processed"
  by (simp add: load_processed_state_def save_processed_state_def)

lemma bronze_after_save:
  "bronze (save_processed_state domain processed st) = bronze st"
  by (simp add: save_processed_state_def)

text \<open>
  C1. Once \<open>mark_bronze_files_processed domain files\<close> has returned,
  \<open>get_unprocessed_bronze_files domain\<close> returns a list, and no element of \<open>files\<close>
  is in it.
\<close>

theorem unprocessed_after_commit_disjoint:
  assumes "mark_bronze_files_processed domain files st = Inr st'"
  shows "\<exists>us. get_unprocessed_bronze_files domain st' = Inr us \<and> set us \<inter> set files = {}"
proof -
  from assms obtain processed where
    loaded: "load_processed_state domain st = Inr processed" and
    st': "st' = save_processed_state domain (processed \<union> set files) st"
    by (auto simp: mark_bronze_files_processed_def split: sum.splits)
  have "finite (processed \<union> set files)"
    using load_processed_state_finite [OF loaded] by simp
  then have again: "load_processed_state domain st' = Inr (processed \<union> set files)"
    unfolding st' by (rule load_after_save)
  have same_dir: "bronze st' domain = bronze st domain"
    unfolding st' by (simp add: bronze_after_save)
  show ?thesis
    unfolding get_unprocessed_bronze_files_def same_dir again
    by (cases "bronze st domain") auto
qed

theorem unprocessed_after_commit_disjoint_witness:
  "mark_bronze_files_processed ''sales'' [''b/a.csv'']
     (empty_world\<lparr>bronze := (\<lambda>d. Some [(''b/a.csv'', None), (''b/c.csv'', None)])\<rparr>)
   = Inr (save_processed_state ''sales'' {''b/a.csv''}
     (empty_world\<lparr>bronze := (\<lambda>d. Some [(''b/a.csv'', None), (''b/c.csv'', None)])\<rparr>))
   \<and> (\<exists>us. get_unprocessed_bronze_files ''sales''
        (save_processed_state ''sales'' {''b/a.csv''}
          (empty_world\<lparr>bronze := (\<lambda>d. Some [(''b/a.csv'', None), (''b/c.csv'', None)])\<rparr>)) = Inr us
        \<and> set us \<inter> set [''b/a.csv''] = {})"
proof -
  have m: "mark_bronze_files_processed ''sales'' [''b/a.csv'']
     (empty_world\<lparr>bronze := (\<lambda>d. Some [(''b/a.csv'', None), (''b/c.csv'', None)])\<rparr>)
   = Inr (save_processed_state ''sales'' {''b/a.csv''}
     (empty_world\<lparr>bronze := (\<lambda>d. Some [(''b/a.csv'', None), (''b/c.csv'', None)])\<rparr>))"
    by (simp add: mark_bronze_files_processed_def load_processed_state_def empty_world_def)
  show ?thesis
    using m unprocessed_after_commit_disjoint [OF m] by simp
qed

text \<open>
  C3 (as the code has it). A missing ledger file loads as the empty set; a ledger file
  that \<open>json.load\<close> rejects makes \<open>_load_processed_state\<close> raise; a readable one loads
  as the set of its entries.
\<close>

theorem load_processed_state_cases:
  "(state_files st domain = None \<longrightarrow> load_processed_state domain st = Inr {}) \<and>
   (state_files st domain = Some Corrupt \<longrightarrow> load_processed_state domain st = Inl JSONDecodeError) \<and>
   (\<forall>xs. state_files st domain = Some (Listed xs) \<longrightarrow> load_processed_state domain st = Inr (set xs))"
  by (simp add: load_processed_state_def)

theorem load_processed_state_cases_witness:
  "state_files empty_world ''sales'' = None \<and>
   load_processed_state ''sales'' empty_world = Inr {} \<and>
   state_files corrupt_ledger_world ''sales'' = Some Corrupt \<and>
   load_processed_state ''sales'' corrupt_ledger_world = Inl JSONDecodeError"
proof -
  have a: "state_files empty_world ''sales'' = None"
    by (simp add: empty_world_def)
  have b: "state_files corrupt_ledger_world ''sales'' = Some Corrupt"
    by (simp add: corrupt_ledger_world_def)
  show ?thesis
    using a b load_processed_state_cases [of empty_world "''sales''"]
      load_processed_state_cases [of corrupt_ledger_world "''sales''"]
    by simp
qed

theorem load_corrupt_ledger_raises:
  "load_processed_state ''sales'' corrupt_ledger_world = Inl JSONDecodeError \<and>
   load_processed_state ''sales'' corrupt_ledger_world \<noteq> Inr {}"
  by (simp add: load_processed_state_def corrupt_ledger_world_def)

section \<open>Properties of the cleaning stage\<close>

subsection \<open>The error strings, row by row\<close>

lemma length_add_error:
  "length errors = length rs \<Longrightarrow> length (add_error msk tag rs errors) = length rs"
  by (simp add: add_error_def)

lemma nth_add_error:
  "length errors = length rs \<Longrightarrow> i < length rs \<Longrightarrow>
   add_error msk tag rs errors ! i = (if msk (rs ! i) then errors ! i @ tag else errors ! i)"
  by (simp add: add_error_def)

lemma length_null_errors:
  "length errors = length rs \<Longrightarrow> length (null_errors cols rs errors) = length rs"
  unfolding null_errors_def
  by (induction cols arbitrary: errors) (simp_all add: length_add_error)

lemma nth_null_errors:
  "length errors = length rs \<Longrightarrow> i < length rs \<Longrightarrow>
   null_errors cols rs errors ! i = errors ! i @ concat (null_tag_list cols (rs ! i))"
  unfolding null_errors_def
proof (induction cols arbitrary: errors)
  case Nil
  then show ?case by simp
next
  case (Cons c cols)
  let ?e = "add_error (\<lambda>r. r c = None) (''NULL:'' @ c @ ''; '') rs errors"
  have len: "length ?e = length rs"
    using Cons.prems(1) by (rule length_add_error)
  show ?case
    using Cons.IH [OF len Cons.prems(2)] Cons.prems
    by (simp add: nth_add_error)
qed

lemma length_finalise:
  "length errors = length rs \<Longrightarrow> length (rows (finalise now cols rs errors)) = length rs"
  by (simp add: finalise_def)

lemma nth_finalise:
  "length errors = length rs \<Longrightarrow> i < length rs \<Longrightarrow>
   rows (finalise now cols rs errors) ! i =
     (rs ! i)(''is_valid'' \<mapsto> Bool (strip (errors ! i) = []),
              ''validation_errors'' \<mapsto> Str (strip (errors ! i)),
              ''processed_at'' \<mapsto> Str (isoformat now))"
  by (simp add: finalise_def)

subsection \<open>Stripping\<close>

lemma all_dropWhile_iff:
  "(\<forall>x \<in> set (dropWhile P s). P x) \<longleftrightarrow> (\<forall>x \<in> set s. P x)"
proof
  assume all: "\<forall>x \<in> set (dropWhile P s). P x"
  have "dropWhile P s = []"
  proof (rule ccontr)
    assume ne: "dropWhile P s \<noteq> []"
    then have "\<not> P (hd (dropWhile P s))" by (rule hd_dropWhile)
    moreover from ne have "hd (dropWhile P s) \<in> set (dropWhile P s)" by simp
    ultimately show False using all by blast
  qed
  then show "\<forall>x \<in> set s. P x" by (simp add: dropWhile_eq_Nil_conv)
next
  assume "\<forall>x \<in> set s. P x"
  then show "\<forall>x \<in> set (dropWhile P s). P x" by (auto dest: set_dropWhileD)
qed

lemma strip_Nil_iff: "strip s = [] \<longleftrightarrow> (\<forall>c \<in> set s. is_space c)"
  by (simp add: strip_def dropWhile_eq_Nil_conv all_dropWhile_iff)

text \<open>Tags that each hold a character other than whitespace strip to nothing only if there is none.\<close>

lemma strip_concat_tags:
  assumes "\<forall>t \<in> set tags. \<exists>c \<in> set t. \<not> is_space c"
  shows "strip (concat tags) = [] \<longleftrightarrow> tags = []"
proof
  assume "strip (concat tags) = []"
  then have sp: "\<forall>c \<in> set (concat tags). is_space c" by (simp only: strip_Nil_iff)
  show "tags = []"
  proof (rule ccontr)
    assume "tags \<noteq> []"
    then obtain t where t: "t \<in> set tags" by (cases tags) auto
    with assms obtain c where "c \<in> set t" "\<not> is_space c" by blast
    with t sp show False by auto
  qed
next
  assume "tags = []"
  then show "strip (concat tags) = []" by (simp add: strip_def)
qed

lemma null_tag_visible: "\<forall>t \<in> set (null_tag_list cols r). \<exists>c \<in> set t. \<not> is_space c"
proof
  fix t assume "t \<in> set (null_tag_list cols r)"
  then have "CHR ''N'' \<in> set t" by auto
  moreover have "\<not> is_space CHR ''N''" by (simp add: is_space_def)
  ultimately show "\<exists>c \<in> set t. \<not> is_space c" by blast
qed

lemma event_tag_visible: "\<forall>t \<in> set (event_tags r). \<exists>c \<in> set t. \<not> is_space c"
proof
  fix t assume "t \<in> set (event_tags r)"
  then have "CHR ''N'' \<in> set t" by (auto split: if_splits)
  moreover have "\<not> is_space CHR ''N''" by (simp add: is_space_def)
  ultimately show "\<exists>c \<in> set t. \<not> is_space c" by blast
qed

lemma inventory_tag_visible: "\<forall>t \<in> set (inventory_tags numeric r). \<exists>c \<in> set t. \<not> is_space c"
proof
  fix t assume "t \<in> set (inventory_tags numeric r)"
  then have "CHR ''N'' \<in> set t" by (auto split: if_splits)
  moreover have "\<not> is_space CHR ''N''" by (simp add: is_space_def)
  ultimately show "\<exists>c \<in> set t. \<not> is_space c" by blast
qed

lemma distinct_null_tag_list: "distinct cols \<Longrightarrow> distinct (null_tag_list cols r)"
  by (simp add: distinct_map inj_on_def)

subsection \<open>Dropping duplicates\<close>

lemma drop_dups_keys:
  "set (map (\<lambda>r. r key) (drop_dups key seen rs)) = set (map (\<lambda>r. r key) rs) - set seen"
  by (induction rs arbitrary: seen) auto

lemma drop_dups_distinct:
  "distinct (map (\<lambda>r. r key) (drop_dups key seen rs))"
proof (induction rs arbitrary: seen)
  case Nil
  then show ?case by simp
next
  case (Cons r rs)
  have "r key \<notin> set (map (\<lambda>r. r key) (drop_dups key (r key # seen) rs))"
    unfolding drop_dups_keys by simp
  with Cons show ?case by simp
qed

lemma drop_dups_first:
  "r \<in> set (drop_dups key seen rs) \<Longrightarrow> find (\<lambda>s. s key = r key) rs = Some r"
proof (induction rs arbitrary: seen)
  case Nil
  then show ?case by simp
next
  case (Cons a rs)
  show ?case
  proof (cases "a key \<in> set seen")
    case True
    with Cons.prems have in_rest: "r \<in> set (drop_dups key seen rs)" by simp
    then have "r key \<in> set (map (\<lambda>r. r key) (drop_dups key seen rs))" by force
    then have "r key \<notin> set seen" unfolding drop_dups_keys by simp
    with True have "a key \<noteq> r key" by auto
    with Cons.IH [OF in_rest] show ?thesis by simp
  next
    case False
    with Cons.prems have "r = a \<or> r \<in> set (drop_dups key (a key # seen) rs)" by simp
    then show ?thesis
    proof
      assume "r = a" then show ?thesis by simp
    next
      assume in_rest: "r \<in> set (drop_dups key (a key # seen) rs)"
      then have "r key \<in> set (map (\<lambda>r. r key) (drop_dups key (a key # seen) rs))" by force
      then have "a key \<noteq> r key" unfolding drop_dups_keys by auto
      with Cons.IH [OF in_rest] show ?thesis by simp
    qed
  qed
qed

lemma drop_dups_map:
  "(\<And>r. f r key = r key) \<Longrightarrow> drop_dups key seen (map f rs) = map f (drop_dups key seen rs)"
  by (induction rs arbitrary: seen) auto

lemma to_datetime_other: "c \<noteq> col \<Longrightarrow> to_datetime parse col r c = r c"
  by (simp add: to_datetime_def)

lemma fix_total_amount_other: "c \<noteq> ''total_amount'' \<Longrightarrow> fix_total_amount r c = r c"
  by (simp add: fix_total_amount_def)

lemma drop_duplicates_to_datetime:
  "key \<noteq> col \<Longrightarrow>
   drop_duplicates key (map (to_datetime parse col) rs) =
   map (to_datetime parse col) (drop_duplicates key rs)"
  unfolding drop_duplicates_def by (rule drop_dups_map) (simp add: to_datetime_other)

subsection \<open>What each processor returns, row by row\<close>

lemma process_sales_rows:
  assumes "process_sales parse now df = Inr out"
  shows "length (rows out) = length (deduped parse ''sale_id'' df)"
    and "i < length (deduped parse ''sale_id'' df) \<Longrightarrow> rows out ! i =
           (fix_total_amount (deduped parse ''sale_id'' df ! i))
             (''is_valid'' \<mapsto> Bool (strip (concat (null_tag_list required_cols_sales
                  (deduped parse ''sale_id'' df ! i))) = []),
              ''validation_errors'' \<mapsto> Str (strip (concat (null_tag_list required_cols_sales
                  (deduped parse ''sale_id'' df ! i)))),
              ''processed_at'' \<mapsto> Str (isoformat now))"
proof -
  let ?kept = "deduped parse ''sale_id'' df"
  let ?errs = "null_errors required_cols_sales ?kept (replicate (length ?kept) [])"
  have out: "out = finalise now (columns df) (map fix_total_amount ?kept) ?errs"
    using assms(1) unfolding process_sales_def Let_def
    by (simp split: if_splits)
  have len: "length ?errs = length (map fix_total_amount ?kept)"
    by (simp add: length_null_errors)
  show "length (rows out) = length ?kept"
    unfolding out using length_finalise [OF len] by simp
  assume i: "i < length ?kept"
  then have i': "i < length (map fix_total_amount ?kept)" by simp
  have e: "?errs ! i = concat (null_tag_list required_cols_sales (?kept ! i))"
    using i by (simp add: nth_null_errors)
  show "rows out ! i =
           (fix_total_amount (?kept ! i))
             (''is_valid'' \<mapsto> Bool (strip (concat (null_tag_list required_cols_sales (?kept ! i))) = []),
              ''validation_errors'' \<mapsto> Str (strip (concat (null_tag_list required_cols_sales (?kept ! i)))),
              ''processed_at'' \<mapsto> Str (isoformat now))"
    unfolding out nth_finalise [OF len i'] e using i by simp
qed

lemma process_customer_events_rows:
  assumes "process_customer_events parse now df = Inr out"
  shows "length (rows out) = length (deduped parse ''event_id'' df)"
    and "i < length (deduped parse ''event_id'' df) \<Longrightarrow> rows out ! i =
           (deduped parse ''event_id'' df ! i)
             (''is_valid'' \<mapsto> Bool (strip (concat (event_tags (deduped parse ''event_id'' df ! i))) = []),
              ''validation_errors'' \<mapsto> Str (strip (concat (event_tags (deduped parse ''event_id'' df ! i)))),
              ''processed_at'' \<mapsto> Str (isoformat now))"
proof -
  let ?kept = "deduped parse ''event_id'' df"
  let ?nulls = "null_errors required_cols_events ?kept (replicate (length ?kept) [])"
  let ?errs = "add_error
      (\<lambda>r. \<not> isin VALID_EVENT_TYPES (r ''event_type'') \<and> r ''event_type'' \<noteq> None)
      ''INVALID_EVENT_TYPE; '' ?kept ?nulls"
  have out: "out = finalise now (columns df) ?kept ?errs"
    using assms(1) unfolding process_customer_events_def Let_def
    by (simp split: if_splits)
  have len0: "length ?nulls = length ?kept"
    by (simp add: length_null_errors)
  have len: "length ?errs = length ?kept"
    using len0 by (rule length_add_error)
  show "length (rows out) = length ?kept"
    unfolding out using length_finalise [OF len] by simp
  assume i: "i < length ?kept"
  have e1: "?nulls ! i = concat (null_tag_list required_cols_events (?kept ! i))"
    using i by (simp add: nth_null_errors)
  note e2 = nth_add_error [OF len0 i,
      of "\<lambda>r. \<not> isin VALID_EVENT_TYPES (r ''event_type'') \<and> r ''event_type'' \<noteq> None"
        "''INVALID_EVENT_TYPE; ''"]
  have e: "?errs ! i = concat (event_tags (?kept ! i))"
    unfolding e2 e1 by simp
  show "rows out ! i =
           (?kept ! i)
             (''is_valid'' \<mapsto> Bool (strip (concat (event_tags (?kept ! i))) = []),
              ''validation_errors'' \<mapsto> Str (strip (concat (event_tags (?kept ! i)))),
              ''processed_at'' \<mapsto> Str (isoformat now))"
    unfolding out nth_finalise [OF len i] e by simp
qed

lemma process_inventory_rows:
  assumes "process_inventory parse numeric now df = Inr out"
  shows "length (rows out) = length (deduped parse ''movement_id'' df)"
    and "i < length (deduped parse ''movement_id'' df) \<Longrightarrow> rows out ! i =
           (deduped parse ''movement_id'' df ! i)
             (''is_valid'' \<mapsto> Bool (strip (concat (inventory_tags numeric
                  (deduped parse ''movement_id'' df ! i))) = []),
              ''validation_errors'' \<mapsto> Str (strip (concat (inventory_tags numeric
                  (deduped parse ''movement_id'' df ! i)))),
              ''processed_at'' \<mapsto> Str (isoformat now))"
proof -
  let ?kept = "deduped parse ''movement_id'' df"
  let ?nulls = "null_errors required_cols_inventory ?kept (replicate (length ?kept) [])"
  let ?enum = "add_error
      (\<lambda>r. \<not> isin VALID_MOVEMENT_TYPES (r ''movement_type'') \<and> r ''movement_type'' \<noteq> None)
      ''INVALID_MOVEMENT_TYPE; '' ?kept ?nulls"
  let ?errs = "add_error (bad_qty numeric) ''NON_POSITIVE_QUANTITY; '' ?kept ?enum"
  have out: "out = finalise now (columns df) ?kept ?errs"
    using assms(1) unfolding process_inventory_def Let_def
    by (simp split: if_splits)
  have len0: "length ?nulls = length ?kept"
    by (simp add: length_null_errors)
  have len1: "length ?enum = length ?kept"
    using len0 by (rule length_add_error)
  have len: "length ?errs = length ?kept"
    using len1 by (rule length_add_error)
  show "length (rows out) = length ?kept"
    unfolding out using length_finalise [OF len] by simp
  assume i: "i < length ?kept"
  have e1: "?nulls ! i = concat (null_tag_list required_cols_inventory (?kept ! i))"
    using i by (simp add: nth_null_errors)
  note e2 = nth_add_error [OF len0 i,
      of "\<lambda>r. \<not> isin VALID_MOVEMENT_TYPES (r ''movement_type'') \<and> r ''movement_type'' \<noteq> None"
        "''INVALID_MOVEMENT_TYPE; ''"]
  note e3 = nth_add_error [OF len1 i, of "bad_qty numeric" "''NON_POSITIVE_QUANTITY; ''"]
  have e: "?errs ! i = concat (inventory_tags numeric (?kept ! i))"
    unfolding e3 e2 e1 by simp
  show "rows out ! i =
           (?kept ! i)
             (''is_valid'' \<mapsto> Bool (strip (concat (inventory_tags numeric (?kept ! i))) = []),
              ''validation_errors'' \<mapsto> Str (strip (concat (inventory_tags numeric (?kept ! i)))),
              ''processed_at'' \<mapsto> Str (isoformat now))"
    unfolding out nth_finalise [OF len i] e by simp
qed

subsection \<open>The examples, evaluated\<close>

lemma sales_example_runs:
  "\<exists>out. process_sales sample_parse epoch sales_example = Inr out"
  by (simp add: process_sales_def sales_example_def required_cols_sales_def Let_def
      drop_duplicates_def sale_def sample_parse_def arithmetic_ok_def computable_def
      to_datetime_def)

lemma events_example_runs:
  "\<exists>out. process_customer_events sample_parse epoch events_example = Inr out"
  by (simp add: process_customer_events_def events_example_def required_cols_events_def Let_def)

lemma inventory_example_runs:
  "\<exists>out. process_inventory sample_parse sample_numeric epoch inventory_example = Inr out"
  by (simp add: process_inventory_def inventory_example_def required_cols_inventory_def Let_def)

lemma sales_example_deduped:
  "length (deduped sample_parse ''sale_id'' sales_example) = 2"
  "null_tag_list required_cols_sales (deduped sample_parse ''sale_id'' sales_example ! 0) = []"
  "null_tag_list required_cols_sales (deduped sample_parse ''sale_id'' sales_example ! 1) =
     [''NULL:timestamp; '', ''NULL:quantity; '', ''NULL:total_amount; '']"
  by (simp_all add: sales_example_def drop_duplicates_def sale_def sample_parse_def
      to_datetime_def required_cols_sales_def)

lemma events_example_deduped:
  "length (deduped sample_parse ''event_id'' events_example) = 2"
  "event_tags (deduped sample_parse ''event_id'' events_example ! 0) = []"
  "event_tags (deduped sample_parse ''event_id'' events_example ! 1) =
     [''NULL:timestamp; '', ''INVALID_EVENT_TYPE; '']"
  by (simp_all add: events_example_def drop_duplicates_def event_def sample_parse_def
      to_datetime_def required_cols_events_def VALID_EVENT_TYPES_def)

lemma inventory_example_deduped:
  "length (deduped sample_parse ''movement_id'' inventory_example) = 2"
  "inventory_tags sample_numeric (deduped sample_parse ''movement_id'' inventory_example ! 0) = []"
  "inventory_tags sample_numeric (deduped sample_parse ''movement_id'' inventory_example ! 1) =
     [''NULL:timestamp; '', ''INVALID_MOVEMENT_TYPE; '', ''NON_POSITIVE_QUANTITY; '']"
  by (simp_all add: inventory_example_def drop_duplicates_def movement_def sample_parse_def
      to_datetime_def required_cols_inventory_def VALID_MOVEMENT_TYPES_def bad_qty_def
      sample_numeric_def)

lemma strip_examples:
  "strip ''NULL:timestamp; NULL:quantity; NULL:total_amount; '' =
     ''NULL:timestamp; NULL:quantity; NULL:total_amount;''"
  "strip ''NULL:timestamp; INVALID_EVENT_TYPE; '' = ''NULL:timestamp; INVALID_EVENT_TYPE;''"
  "strip ''NULL:timestamp; INVALID_MOVEMENT_TYPE; NON_POSITIVE_QUANTITY; '' =
     ''NULL:timestamp; INVALID_MOVEMENT_TYPE; NON_POSITIVE_QUANTITY;''"
  "strip [] = []"
  by (simp_all add: strip_def is_space_def)

subsection \<open>Required fields and validity\<close>

lemma sales_tagged:
  assumes "process_sales parse now df = Inr out" and "i < length (rows out)"
  shows "distinct (null_tag_list required_cols_sales (deduped parse ''sale_id'' df ! i)) \<and>
         tagged (rows out ! i) (null_tag_list required_cols_sales (deduped parse ''sale_id'' df ! i))"
proof -
  from assms have i: "i < length (deduped parse ''sale_id'' df)"
    by (simp add: process_sales_rows(1))
  have "distinct required_cols_sales" by (simp add: required_cols_sales_def)
  then have d: "distinct (null_tag_list required_cols_sales (deduped parse ''sale_id'' df ! i))"
    by (rule distinct_null_tag_list)
  have s: "strip (concat (null_tag_list required_cols_sales (deduped parse ''sale_id'' df ! i))) = [] \<longleftrightarrow>
      null_tag_list required_cols_sales (deduped parse ''sale_id'' df ! i) = []"
    by (rule strip_concat_tags [OF null_tag_visible])
  show ?thesis
    using d unfolding process_sales_rows(2) [OF assms(1) i] s by simp
qed

lemma events_tagged:
  assumes "process_customer_events parse now df = Inr out" and "i < length (rows out)"
  shows "distinct (event_tags (deduped parse ''event_id'' df ! i)) \<and>
         tagged (rows out ! i) (event_tags (deduped parse ''event_id'' df ! i))"
proof -
  from assms have i: "i < length (deduped parse ''event_id'' df)"
    by (simp add: process_customer_events_rows(1))
  have "distinct required_cols_events" by (simp add: required_cols_events_def)
  then have "distinct (null_tag_list required_cols_events (deduped parse ''event_id'' df ! i))"
    by (rule distinct_null_tag_list)
  then have d: "distinct (event_tags (deduped parse ''event_id'' df ! i))"
    by auto
  have s: "strip (concat (event_tags (deduped parse ''event_id'' df ! i))) = [] \<longleftrightarrow>
      event_tags (deduped parse ''event_id'' df ! i) = []"
    by (rule strip_concat_tags [OF event_tag_visible])
  show ?thesis
    using d unfolding process_customer_events_rows(2) [OF assms(1) i] s by simp
qed

lemma inventory_tagged:
  assumes "process_inventory parse numeric now df = Inr out" and "i < length (rows out)"
  shows "distinct (inventory_tags numeric (deduped parse ''movement_id'' df ! i)) \<and>
         tagged (rows out ! i) (inventory_tags numeric (deduped parse ''movement_id'' df ! i))"
proof -
  from assms have i: "i < length (deduped parse ''movement_id'' df)"
    by (simp add: process_inventory_rows(1))
  have "distinct required_cols_inventory" by (simp add: required_cols_inventory_def)
  then have "distinct (null_tag_list required_cols_inventory (deduped parse ''movement_id'' df ! i))"
    by (rule distinct_null_tag_list)
  then have d: "distinct (inventory_tags numeric (deduped parse ''movement_id'' df ! i))"
    by auto
  have s: "strip (concat (inventory_tags numeric (deduped parse ''movement_id'' df ! i))) = [] \<longleftrightarrow>
      inventory_tags numeric (deduped parse ''movement_id'' df ! i) = []"
    by (rule strip_concat_tags [OF inventory_tag_visible])
  show ?thesis
    using d unfolding process_inventory_rows(2) [OF assms(1) i] s by simp
qed

text \<open>
  C5. Every cleaned row carries one \<open>NULL:<field>\<close> tag for each required field it
  lacks, all of them and each once, in the order of the required fields (followed, for
  events and movements, by the tags of the domain checks); and \<open>is_valid\<close> is true
  exactly when the row carries no tag.
\<close>

theorem null_tags_accumulate:
  "(process_sales parse now df = Inr out \<longrightarrow>
      length (rows out) = length (deduped parse ''sale_id'' df) \<and>
      (\<forall>i < length (rows out).
         distinct (null_tag_list required_cols_sales (deduped parse ''sale_id'' df ! i)) \<and>
         tagged (rows out ! i)
           (null_tag_list required_cols_sales (deduped parse ''sale_id'' df ! i)))) \<and>
   (process_customer_events parse now df = Inr out \<longrightarrow>
      length (rows out) = length (deduped parse ''event_id'' df) \<and>
      (\<forall>i < length (rows out).
         distinct (event_tags (deduped parse ''event_id'' df ! i)) \<and>
         tagged (rows out ! i) (event_tags (deduped parse ''event_id'' df ! i)))) \<and>
   (process_inventory parse numeric now df = Inr out \<longrightarrow>
      length (rows out) = length (deduped parse ''movement_id'' df) \<and>
      (\<forall>i < length (rows out).
         distinct (inventory_tags numeric (deduped parse ''movement_id'' df ! i)) \<and>
         tagged (rows out ! i) (inventory_tags numeric (deduped parse ''movement_id'' df ! i))))"
proof (intro conjI)
  show "process_sales parse now df = Inr out \<longrightarrow>
      length (rows out) = length (deduped parse ''sale_id'' df) \<and>
      (\<forall>i < length (rows out).
         distinct (null_tag_list required_cols_sales (deduped parse ''sale_id'' df ! i)) \<and>
         tagged (rows out ! i)
           (null_tag_list required_cols_sales (deduped parse ''sale_id'' df ! i)))"
  proof (rule impI, rule conjI)
    assume o: "process_sales parse now df = Inr out"
    show "length (rows out) = length (deduped parse ''sale_id'' df)"
      using o by (rule process_sales_rows(1))
    show "\<forall>i < length (rows out).
         distinct (null_tag_list required_cols_sales (deduped parse ''sale_id'' df ! i)) \<and>
         tagged (rows out ! i)
           (null_tag_list required_cols_sales (deduped parse ''sale_id'' df ! i))"
      by (intro allI impI) (rule sales_tagged [OF o])
  qed
next
  show "process_customer_events parse now df = Inr out \<longrightarrow>
      length (rows out) = length (deduped parse ''event_id'' df) \<and>
      (\<forall>i < length (rows out).
         distinct (event_tags (deduped parse ''event_id'' df ! i)) \<and>
         tagged (rows out ! i) (event_tags (deduped parse ''event_id'' df ! i)))"
  proof (rule impI, rule conjI)
    assume o: "process_customer_events parse now df = Inr out"
    show "length (rows out) = length (deduped parse ''event_id'' df)"
      using o by (rule process_customer_events_rows(1))
    show "\<forall>i < length (rows out).
         distinct (event_tags (deduped parse ''event_id'' df ! i)) \<and>
         tagged (rows out ! i) (event_tags (deduped parse ''event_id'' df ! i))"
      by (intro allI impI) (rule events_tagged [OF o])
  qed
next
  show "process_inventory parse numeric now df = Inr out \<longrightarrow>
      length (rows out) = length (deduped parse ''movement_id'' df) \<and>
      (\<forall>i < length (rows out).
         distinct (inventory_tags numeric (deduped parse ''movement_id'' df ! i)) \<and>
         tagged (rows out ! i) (inventory_tags numeric (deduped parse ''movement_id'' df ! i)))"
  proof (rule impI, rule conjI)
    assume o: "process_inventory parse numeric now df = Inr out"
    show "length (rows out) = length (deduped parse ''movement_id'' df)"
      using o by (rule process_inventory_rows(1))
    show "\<forall>i < length (rows out).
         distinct (inventory_tags numeric (deduped parse ''movement_id'' df ! i)) \<and>
         tagged (rows out ! i) (inventory_tags numeric (deduped parse ''movement_id'' df ! i))"
      by (intro allI impI) (rule inventory_tagged [OF o])
  qed
qed

theorem null_tags_accumulate_witness:
  "(\<exists>out. process_sales sample_parse epoch sales_example = Inr out \<and>
      length (rows out) = 2 \<and>
      (rows out ! 0) ''validation_errors'' = Some (Str []) \<and>
      (rows out ! 0) ''is_valid'' = Some (Bool True) \<and>
      (rows out ! 1) ''validation_errors'' =
        Some (Str ''NULL:timestamp; NULL:quantity; NULL:total_amount;'') \<and>
      (rows out ! 1) ''is_valid'' = Some (Bool False)) \<and>
   (\<exists>out. process_customer_events sample_parse epoch events_example = Inr out \<and>
      length (rows out) = 2 \<and>
      (rows out ! 1) ''validation_errors'' = Some (Str ''NULL:timestamp; INVALID_EVENT_TYPE;'') \<and>
      (rows out ! 1) ''is_valid'' = Some (Bool False)) \<and>
   (\<exists>out. process_inventory sample_parse sample_numeric epoch inventory_example = Inr out \<and>
      length (rows out) = 2 \<and>
      (rows out ! 1) ''validation_errors'' =
        Some (Str ''NULL:timestamp; INVALID_MOVEMENT_TYPE; NON_POSITIVE_QUANTITY;'') \<and>
      (rows out ! 1) ''is_valid'' = Some (Bool False))"
proof (intro conjI)
  obtain out where o: "process_sales sample_parse epoch sales_example = Inr out"
    using sales_example_runs by blast
  note t = null_tags_accumulate [where parse = sample_parse and now = epoch
      and df = sales_example and out = out, THEN conjunct1, THEN mp, OF o]
  from t have len: "length (rows out) = 2"
    unfolding sales_example_deduped(1) by (rule conjunct1)
  have i0: "0 < length (rows out)" and i1: "1 < length (rows out)"
    using len by simp_all
  note r0 = t [THEN conjunct2, rule_format, OF i0, THEN conjunct2,
      unfolded sales_example_deduped]
  note r1 = t [THEN conjunct2, rule_format, OF i1, THEN conjunct2,
      unfolded sales_example_deduped]
  from o len r0 r1 show "\<exists>out. process_sales sample_parse epoch sales_example = Inr out \<and>
      length (rows out) = 2 \<and>
      (rows out ! 0) ''validation_errors'' = Some (Str []) \<and>
      (rows out ! 0) ''is_valid'' = Some (Bool True) \<and>
      (rows out ! 1) ''validation_errors'' =
        Some (Str ''NULL:timestamp; NULL:quantity; NULL:total_amount;'') \<and>
      (rows out ! 1) ''is_valid'' = Some (Bool False)"
    by (simp add: strip_examples)
next
  obtain out where o: "process_customer_events sample_parse epoch events_example = Inr out"
    using events_example_runs by blast
  note t = null_tags_accumulate [where parse = sample_parse and now = epoch
      and df = events_example and out = out, THEN conjunct2, THEN conjunct1, THEN mp, OF o]
  from t have len: "length (rows out) = 2"
    unfolding events_example_deduped(1) by (rule conjunct1)
  have i1: "1 < length (rows out)"
    using len by simp
  note r1 = t [THEN conjunct2, rule_format, OF i1, THEN conjunct2,
      unfolded events_example_deduped]
  from o len r1 show "\<exists>out. process_customer_events sample_parse epoch events_example = Inr out \<and>
      length (rows out) = 2 \<and>
      (rows out ! 1) ''validation_errors'' = Some (Str ''NULL:timestamp; INVALID_EVENT_TYPE;'') \<and>
      (rows out ! 1) ''is_valid'' = Some (Bool False)"
    by (simp add: strip_examples)
next
  obtain out where
    o: "process_inventory sample_parse sample_numeric epoch inventory_example = Inr out"
    using inventory_example_runs by blast
  note t = null_tags_accumulate [where parse = sample_parse and now = epoch
      and numeric = sample_numeric and df = inventory_example and out = out,
      THEN conjunct2, THEN conjunct2, THEN mp, OF o]
  from t have len: "length (rows out) = 2"
    unfolding inventory_example_deduped(1) by (rule conjunct1)
  have i1: "1 < length (rows out)"
    using len by simp
  note r1 = t [THEN conjunct2, rule_format, OF i1, THEN conjunct2,
      unfolded inventory_example_deduped]
  from o len r1 show
    "\<exists>out. process_inventory sample_parse sample_numeric epoch inventory_example = Inr out \<and>
      length (rows out) = 2 \<and>
      (rows out ! 1) ''validation_errors'' =
        Some (Str ''NULL:timestamp; INVALID_MOVEMENT_TYPE; NON_POSITIVE_QUANTITY;'') \<and>
      (rows out ! 1) ''is_valid'' = Some (Bool False)"
    by (simp add: strip_examples)
qed

subsection \<open>Repair of the derived total\<close>

lemma sales_example_first_row:
  "(deduped sample_parse ''sale_id'' sales_example ! 0) ''sale_id'' = Some (Str ''s1'')"
  "(deduped sample_parse ''sale_id'' sales_example ! 0) ''quantity'' = Some (Num 3)"
  "(deduped sample_parse ''sale_id'' sales_example ! 0) ''unit_price'' = Some (Num 10)"
  "(deduped sample_parse ''sale_id'' sales_example ! 0) ''total_amount'' = Some (Num 35)"
  "null_tag_list [''sale_id'', ''timestamp'', ''customer_id'', ''product_id'']
     (deduped sample_parse ''sale_id'' sales_example ! 0) = []"
  by (simp_all add: sales_example_def drop_duplicates_def sale_def sample_parse_def
      to_datetime_def)




subsection \<open>Unreadable timestamps\<close>

lemma deduped_length:
  "key \<noteq> ''timestamp'' \<Longrightarrow>
   length (deduped parse key df) = length (drop_duplicates key (rows df))"
  by (simp add: drop_duplicates_to_datetime)

lemma deduped_bad_timestamp:
  assumes "i < length (drop_duplicates key (rows df))"
    and "(drop_duplicates key (rows df) ! i) ''timestamp'' = Some v" and "parse v = None"
    and "key \<noteq> ''timestamp''"
  shows "deduped parse key df ! i = (drop_duplicates key (rows df) ! i)(''timestamp'' := None)"
  using assms by (simp add: drop_duplicates_to_datetime to_datetime_def)

lemma process_sales_parser_independent:
  assumes "process_sales parse now df = Inr out"
  shows "\<exists>out'. process_sales parse' now df = Inr out'"
proof -
  have keep: "list_all arithmetic_ok (filter computable (map (to_datetime p ''timestamp'') rs)) =
      list_all arithmetic_ok (filter computable rs)" for p rs
    by (induction rs) (simp_all add: arithmetic_ok_def computable_def to_datetime_def)
  have "list_all arithmetic_ok (filter computable (deduped p ''sale_id'' df)) =
        list_all arithmetic_ok (filter computable (drop_duplicates ''sale_id'' (rows df)))" for p
    by (simp add: drop_duplicates_to_datetime keep)
  with assms show ?thesis
    unfolding process_sales_def Let_def by (simp split: if_splits)
qed

lemma process_customer_events_parser_independent:
  assumes "process_customer_events parse now df = Inr out"
  shows "\<exists>out'. process_customer_events parse' now df = Inr out'"
  using assms unfolding process_customer_events_def Let_def by (simp split: if_splits)

lemma process_inventory_parser_independent:
  assumes "process_inventory parse numeric now df = Inr out"
  shows "\<exists>out'. process_inventory parse' numeric now df = Inr out'"
  using assms unfolding process_inventory_def Let_def by (simp split: if_splits)

lemma sales_bad_timestamp:
  assumes o: "process_sales parse now df = Inr out" and i: "i < length (rows out)"
    and bad: "(drop_duplicates ''sale_id'' (rows df) ! i) ''timestamp'' = Some v" "parse v = None"
  shows "(rows out ! i) ''timestamp'' = None \<and>
         tagged (rows out ! i) (null_tag_list required_cols_sales
           ((drop_duplicates ''sale_id'' (rows df) ! i)(''timestamp'' := None))) \<and>
         (rows out ! i) ''is_valid'' = Some (Bool False)"
proof -
  let ?raw = "drop_duplicates ''sale_id'' (rows df) ! i"
  have len: "length (rows out) = length (drop_duplicates ''sale_id'' (rows df))"
    using process_sales_rows(1) [OF o] by (simp add: deduped_length)
  with i have i0: "i < length (drop_duplicates ''sale_id'' (rows df))" by simp
  then have i1: "i < length (deduped parse ''sale_id'' df)" by (simp add: deduped_length)
  have row: "deduped parse ''sale_id'' df ! i = ?raw(''timestamp'' := None)"
    using deduped_bad_timestamp [where parse = parse and v = v, OF i0 bad] by simp
  have ts: "(rows out ! i) ''timestamp'' = None"
    unfolding process_sales_rows(2) [OF o i1] row by (simp add: fix_total_amount_other)
  have tg: "tagged (rows out ! i) (null_tag_list required_cols_sales (?raw(''timestamp'' := None)))"
    using sales_tagged [OF o i] unfolding row by (rule conjunct2)
  have "null_tag_list required_cols_sales (?raw(''timestamp'' := None)) \<noteq> []"
    by (simp add: required_cols_sales_def)
  with tg have "(rows out ! i) ''is_valid'' = Some (Bool False)" by simp
  with ts tg show ?thesis by blast
qed

lemma events_bad_timestamp:
  assumes o: "process_customer_events parse now df = Inr out" and i: "i < length (rows out)"
    and bad: "(drop_duplicates ''event_id'' (rows df) ! i) ''timestamp'' = Some v" "parse v = None"
  shows "(rows out ! i) ''timestamp'' = None \<and>
         tagged (rows out ! i) (event_tags
           ((drop_duplicates ''event_id'' (rows df) ! i)(''timestamp'' := None))) \<and>
         (rows out ! i) ''is_valid'' = Some (Bool False)"
proof -
  let ?raw = "drop_duplicates ''event_id'' (rows df) ! i"
  have len: "length (rows out) = length (drop_duplicates ''event_id'' (rows df))"
    using process_customer_events_rows(1) [OF o] by (simp add: deduped_length)
  with i have i0: "i < length (drop_duplicates ''event_id'' (rows df))" by simp
  then have i1: "i < length (deduped parse ''event_id'' df)" by (simp add: deduped_length)
  have row: "deduped parse ''event_id'' df ! i = ?raw(''timestamp'' := None)"
    using deduped_bad_timestamp [where parse = parse and v = v, OF i0 bad] by simp
  have ts: "(rows out ! i) ''timestamp'' = None"
    unfolding process_customer_events_rows(2) [OF o i1] row by simp
  have tg: "tagged (rows out ! i) (event_tags (?raw(''timestamp'' := None)))"
    using events_tagged [OF o i] unfolding row by (rule conjunct2)
  have "event_tags (?raw(''timestamp'' := None)) \<noteq> []"
    by (simp add: required_cols_events_def)
  with tg have "(rows out ! i) ''is_valid'' = Some (Bool False)" by simp
  with ts tg show ?thesis by blast
qed

lemma inventory_bad_timestamp:
  assumes o: "process_inventory parse numeric now df = Inr out" and i: "i < length (rows out)"
    and bad: "(drop_duplicates ''movement_id'' (rows df) ! i) ''timestamp'' = Some v" "parse v = None"
  shows "(rows out ! i) ''timestamp'' = None \<and>
         tagged (rows out ! i) (inventory_tags numeric
           ((drop_duplicates ''movement_id'' (rows df) ! i)(''timestamp'' := None))) \<and>
         (rows out ! i) ''is_valid'' = Some (Bool False)"
proof -
  let ?raw = "drop_duplicates ''movement_id'' (rows df) ! i"
  have len: "length (rows out) = length (drop_duplicates ''movement_id'' (rows df))"
    using process_inventory_rows(1) [OF o] by (simp add: deduped_length)
  with i have i0: "i < length (drop_duplicates ''movement_id'' (rows df))" by simp
  then have i1: "i < length (deduped parse ''movement_id'' df)" by (simp add: deduped_length)
  have row: "deduped parse ''movement_id'' df ! i = ?raw(''timestamp'' := None)"
    using deduped_bad_timestamp [where parse = parse and v = v, OF i0 bad] by simp
  have ts: "(rows out ! i) ''timestamp'' = None"
    unfolding process_inventory_rows(2) [OF o i1] row by simp
  have tg: "tagged (rows out ! i) (inventory_tags numeric (?raw(''timestamp'' := None)))"
    using inventory_tagged [OF o i] unfolding row by (rule conjunct2)
  have "inventory_tags numeric (?raw(''timestamp'' := None)) \<noteq> []"
    by (simp add: required_cols_inventory_def)
  with tg have "(rows out ! i) ''is_valid'' = Some (Bool False)" by simp
  with ts tg show ?thesis by blast
qed

lemma examples_bad_timestamp:
  "(drop_duplicates ''sale_id'' (rows sales_example) ! 1) ''timestamp'' = Some (Str ''yesterday'')"
  "(drop_duplicates ''event_id'' (rows events_example) ! 1) ''timestamp'' = Some (Str ''yesterday'')"
  "(drop_duplicates ''movement_id'' (rows inventory_example) ! 1) ''timestamp'' =
     Some (Str ''yesterday'')"
  "sample_parse (Str ''yesterday'') = None"
  by (simp_all add: sales_example_def events_example_def inventory_example_def
      drop_duplicates_def sale_def event_def movement_def sample_parse_def)

lemma examples_bad_timestamp_tags:
  "null_tag_list required_cols_sales
     ((drop_duplicates ''sale_id'' (rows sales_example) ! 1)(''timestamp'' := None)) =
     [''NULL:timestamp; '', ''NULL:quantity; '', ''NULL:total_amount; '']"
  "event_tags ((drop_duplicates ''event_id'' (rows events_example) ! 1)(''timestamp'' := None)) =
     [''NULL:timestamp; '', ''INVALID_EVENT_TYPE; '']"
  "inventory_tags sample_numeric
     ((drop_duplicates ''movement_id'' (rows inventory_example) ! 1)(''timestamp'' := None)) =
     [''NULL:timestamp; '', ''INVALID_MOVEMENT_TYPE; '', ''NON_POSITIVE_QUANTITY; '']"
  by (simp_all add: sales_example_def events_example_def inventory_example_def
      drop_duplicates_def sale_def event_def movement_def required_cols_sales_def
      required_cols_events_def required_cols_inventory_def VALID_EVENT_TYPES_def
      VALID_MOVEMENT_TYPES_def bad_qty_def sample_numeric_def)

text \<open>
  C10. In each of the three processors, a row whose timestamp is present but not
  readable comes out with a missing timestamp, the tags of the same row with no
  timestamp at all (\<open>NULL:timestamp\<close> among them, and no tag of its own for the failed
  reading), and \<open>is_valid\<close> false. Whether the processor returns does not depend on
  what the parser can read.
\<close>

theorem bad_timestamp_tagged_null:
  "(process_sales parse now df = Inr out \<longrightarrow>
      (\<forall>parse'. \<exists>out'. process_sales parse' now df = Inr out') \<and>
      (\<forall>i v. i < length (rows out) \<and>
           (drop_duplicates ''sale_id'' (rows df) ! i) ''timestamp'' = Some v \<and> parse v = None \<longrightarrow>
         (rows out ! i) ''timestamp'' = None \<and>
         ''NULL:timestamp; '' \<in> set (null_tag_list required_cols_sales
            ((drop_duplicates ''sale_id'' (rows df) ! i)(''timestamp'' := None))) \<and>
         tagged (rows out ! i) (null_tag_list required_cols_sales
            ((drop_duplicates ''sale_id'' (rows df) ! i)(''timestamp'' := None))) \<and>
         (rows out ! i) ''is_valid'' = Some (Bool False))) \<and>
   (process_customer_events parse now df = Inr out \<longrightarrow>
      (\<forall>parse'. \<exists>out'. process_customer_events parse' now df = Inr out') \<and>
      (\<forall>i v. i < length (rows out) \<and>
           (drop_duplicates ''event_id'' (rows df) ! i) ''timestamp'' = Some v \<and> parse v = None \<longrightarrow>
         (rows out ! i) ''timestamp'' = None \<and>
         ''NULL:timestamp; '' \<in> set (event_tags
            ((drop_duplicates ''event_id'' (rows df) ! i)(''timestamp'' := None))) \<and>
         tagged (rows out ! i) (event_tags
            ((drop_duplicates ''event_id'' (rows df) ! i)(''timestamp'' := None))) \<and>
         (rows out ! i) ''is_valid'' = Some (Bool False))) \<and>
   (process_inventory parse numeric now df = Inr out \<longrightarrow>
      (\<forall>parse'. \<exists>out'. process_inventory parse' numeric now df = Inr out') \<and>
      (\<forall>i v. i < length (rows out) \<and>
           (drop_duplicates ''movement_id'' (rows df) ! i) ''timestamp'' = Some v \<and> parse v = None \<longrightarrow>
         (rows out ! i) ''timestamp'' = None \<and>
         ''NULL:timestamp; '' \<in> set (inventory_tags numeric
            ((drop_duplicates ''movement_id'' (rows df) ! i)(''timestamp'' := None))) \<and>
         tagged (rows out ! i) (inventory_tags numeric
            ((drop_duplicates ''movement_id'' (rows df) ! i)(''timestamp'' := None))) \<and>
         (rows out ! i) ''is_valid'' = Some (Bool False)))"
proof (intro conjI)
  show "process_sales parse now df = Inr out \<longrightarrow>
      (\<forall>parse'. \<exists>out'. process_sales parse' now df = Inr out') \<and>
      (\<forall>i v. i < length (rows out) \<and>
           (drop_duplicates ''sale_id'' (rows df) ! i) ''timestamp'' = Some v \<and> parse v = None \<longrightarrow>
         (rows out ! i) ''timestamp'' = None \<and>
         ''NULL:timestamp; '' \<in> set (null_tag_list required_cols_sales
            ((drop_duplicates ''sale_id'' (rows df) ! i)(''timestamp'' := None))) \<and>
         tagged (rows out ! i) (null_tag_list required_cols_sales
            ((drop_duplicates ''sale_id'' (rows df) ! i)(''timestamp'' := None))) \<and>
         (rows out ! i) ''is_valid'' = Some (Bool False))"
  proof (rule impI, rule conjI)
    assume o: "process_sales parse now df = Inr out"
    show "\<forall>parse'. \<exists>out'. process_sales parse' now df = Inr out'"
      by (rule allI) (rule process_sales_parser_independent [OF o])
    show "\<forall>i v. i < length (rows out) \<and>
           (drop_duplicates ''sale_id'' (rows df) ! i) ''timestamp'' = Some v \<and> parse v = None \<longrightarrow>
         (rows out ! i) ''timestamp'' = None \<and>
         ''NULL:timestamp; '' \<in> set (null_tag_list required_cols_sales
            ((drop_duplicates ''sale_id'' (rows df) ! i)(''timestamp'' := None))) \<and>
         tagged (rows out ! i) (null_tag_list required_cols_sales
            ((drop_duplicates ''sale_id'' (rows df) ! i)(''timestamp'' := None))) \<and>
         (rows out ! i) ''is_valid'' = Some (Bool False)"
    proof (intro allI impI)
      fix i v
      assume h: "i < length (rows out) \<and>
           (drop_duplicates ''sale_id'' (rows df) ! i) ''timestamp'' = Some v \<and> parse v = None"
      have tag: "''NULL:timestamp; '' \<in> set (null_tag_list required_cols_sales
            ((drop_duplicates ''sale_id'' (rows df) ! i)(''timestamp'' := None)))"
        by (simp add: required_cols_sales_def)
      from h have "i < length (rows out)"
        "(drop_duplicates ''sale_id'' (rows df) ! i) ''timestamp'' = Some v" "parse v = None"
        by simp_all
      from sales_bad_timestamp [OF o this] tag
      show "(rows out ! i) ''timestamp'' = None \<and>
         ''NULL:timestamp; '' \<in> set (null_tag_list required_cols_sales
            ((drop_duplicates ''sale_id'' (rows df) ! i)(''timestamp'' := None))) \<and>
         tagged (rows out ! i) (null_tag_list required_cols_sales
            ((drop_duplicates ''sale_id'' (rows df) ! i)(''timestamp'' := None))) \<and>
         (rows out ! i) ''is_valid'' = Some (Bool False)"
        by blast
    qed
  qed
next
  show "process_customer_events parse now df = Inr out \<longrightarrow>
      (\<forall>parse'. \<exists>out'. process_customer_events parse' now df = Inr out') \<and>
      (\<forall>i v. i < length (rows out) \<and>
           (drop_duplicates ''event_id'' (rows df) ! i) ''timestamp'' = Some v \<and> parse v = None \<longrightarrow>
         (rows out ! i) ''timestamp'' = None \<and>
         ''NULL:timestamp; '' \<in> set (event_tags
            ((drop_duplicates ''event_id'' (rows df) ! i)(''timestamp'' := None))) \<and>
         tagged (rows out ! i) (event_tags
            ((drop_duplicates ''event_id'' (rows df) ! i)(''timestamp'' := None))) \<and>
         (rows out ! i) ''is_valid'' = Some (Bool False))"
  proof (rule impI, rule conjI)
    assume o: "process_customer_events parse now df = Inr out"
    show "\<forall>parse'. \<exists>out'. process_customer_events parse' now df = Inr out'"
      by (rule allI) (rule process_customer_events_parser_independent [OF o])
    show "\<forall>i v. i < length (rows out) \<and>
           (drop_duplicates ''event_id'' (rows df) ! i) ''timestamp'' = Some v \<and> parse v = None \<longrightarrow>
         (rows out ! i) ''timestamp'' = None \<and>
         ''NULL:timestamp; '' \<in> set (event_tags
            ((drop_duplicates ''event_id'' (rows df) ! i)(''timestamp'' := None))) \<and>
         tagged (rows out ! i) (event_tags
            ((drop_duplicates ''event_id'' (rows df) ! i)(''timestamp'' := None))) \<and>
         (rows out ! i) ''is_valid'' = Some (Bool False)"
    proof (intro allI impI)
      fix i v
      assume h: "i < length (rows out) \<and>
           (drop_duplicates ''event_id'' (rows df) ! i) ''timestamp'' = Some v \<and> parse v = None"
      have tag: "''NULL:timestamp; '' \<in> set (event_tags
            ((drop_duplicates ''event_id'' (rows df) ! i)(''timestamp'' := None)))"
        by (simp add: required_cols_events_def)
      from h have "i < length (rows out)"
        "(drop_duplicates ''event_id'' (rows df) ! i) ''timestamp'' = Some v" "parse v = None"
        by simp_all
      from events_bad_timestamp [OF o this] tag
      show "(rows out ! i) ''timestamp'' = None \<and>
         ''NULL:timestamp; '' \<in> set (event_tags
            ((drop_duplicates ''event_id'' (rows df) ! i)(''timestamp'' := None))) \<and>
         tagged (rows out ! i) (event_tags
            ((drop_duplicates ''event_id'' (rows df) ! i)(''timestamp'' := None))) \<and>
         (rows out ! i) ''is_valid'' = Some (Bool False)"
        by blast
    qed
  qed
next
  show "process_inventory parse numeric now df = Inr out \<longrightarrow>
      (\<forall>parse'. \<exists>out'. process_inventory parse' numeric now df = Inr out') \<and>
      (\<forall>i v. i < length (rows out) \<and>
           (drop_duplicates ''movement_id'' (rows df) ! i) ''timestamp'' = Some v \<and> parse v = None \<longrightarrow>
         (rows out ! i) ''timestamp'' = None \<and>
         ''NULL:timestamp; '' \<in> set (inventory_tags numeric
            ((drop_duplicates ''movement_id'' (rows df) ! i)(''timestamp'' := None))) \<and>
         tagged (rows out ! i) (inventory_tags numeric
            ((drop_duplicates ''movement_id'' (rows df) ! i)(''timestamp'' := None))) \<and>
         (rows out ! i) ''is_valid'' = Some (Bool False))"
  proof (rule impI, rule conjI)
    assume o: "process_inventory parse numeric now df = Inr out"
    show "\<forall>parse'. \<exists>out'. process_inventory parse' numeric now df = Inr out'"
      by (rule allI) (rule process_inventory_parser_independent [OF o])
    show "\<forall>i v. i < length (rows out) \<and>
           (drop_duplicates ''movement_id'' (rows df) ! i) ''timestamp'' = Some v \<and> parse v = None \<longrightarrow>
         (rows out ! i) ''timestamp'' = None \<and>
         ''NULL:timestamp; '' \<in> set (inventory_tags numeric
            ((drop_duplicates ''movement_id'' (rows df) ! i)(''timestamp'' := None))) \<and>
         tagged (rows out ! i) (inventory_tags numeric
            ((drop_duplicates ''movement_id'' (rows df) ! i)(''timestamp'' := None))) \<and>
         (rows out ! i) ''is_valid'' = Some (Bool False)"
    proof (intro allI impI)
      fix i v
      assume h: "i < length (rows out) \<and>
           (drop_duplicates ''movement_id'' (rows df) ! i) ''timestamp'' = Some v \<and> parse v = None"
      have tag: "''NULL:timestamp; '' \<in> set (inventory_tags numeric
            ((drop_duplicates ''movement_id'' (rows df) ! i)(''timestamp'' := None)))"
        by (simp add: required_cols_inventory_def)
      from h have "i < length (rows out)"
        "(drop_duplicates ''movement_id'' (rows df) ! i) ''timestamp'' = Some v" "parse v = None"
        by simp_all
      from inventory_bad_timestamp [OF o this] tag
      show "(rows out ! i) ''timestamp'' = None \<and>
         ''NULL:timestamp; '' \<in> set (inventory_tags numeric
            ((drop_duplicates ''movement_id'' (rows df) ! i)(''timestamp'' := None))) \<and>
         tagged (rows out ! i) (inventory_tags numeric
            ((drop_duplicates ''movement_id'' (rows df) ! i)(''timestamp'' := None))) \<and>
         (rows out ! i) ''is_valid'' = Some (Bool False)"
        by blast
    qed
  qed
qed

theorem bad_timestamp_tagged_null_witness:
  "(\<exists>out. process_sales sample_parse epoch sales_example = Inr out \<and>
      (drop_duplicates ''sale_id'' (rows sales_example) ! 1) ''timestamp'' = Some (Str ''yesterday'') \<and>
      sample_parse (Str ''yesterday'') = None \<and>
      (rows out ! 1) ''timestamp'' = None \<and>
      (rows out ! 1) ''validation_errors'' =
        Some (Str ''NULL:timestamp; NULL:quantity; NULL:total_amount;'') \<and>
      (rows out ! 1) ''is_valid'' = Some (Bool False)) \<and>
   (\<exists>out. process_customer_events sample_parse epoch events_example = Inr out \<and>
      (drop_duplicates ''event_id'' (rows events_example) ! 1) ''timestamp'' = Some (Str ''yesterday'') \<and>
      (rows out ! 1) ''timestamp'' = None \<and>
      (rows out ! 1) ''validation_errors'' = Some (Str ''NULL:timestamp; INVALID_EVENT_TYPE;'') \<and>
      (rows out ! 1) ''is_valid'' = Some (Bool False)) \<and>
   (\<exists>out. process_inventory sample_parse sample_numeric epoch inventory_example = Inr out \<and>
      (drop_duplicates ''movement_id'' (rows inventory_example) ! 1) ''timestamp'' =
        Some (Str ''yesterday'') \<and>
      (rows out ! 1) ''timestamp'' = None \<and>
      (rows out ! 1) ''validation_errors'' =
        Some (Str ''NULL:timestamp; INVALID_MOVEMENT_TYPE; NON_POSITIVE_QUANTITY;'') \<and>
      (rows out ! 1) ''is_valid'' = Some (Bool False))"
proof (intro conjI)
  obtain out where o: "process_sales sample_parse epoch sales_example = Inr out"
    using sales_example_runs by blast
  have i: "1 < length (rows out)"
    using process_sales_rows(1) [OF o] by (simp add: sales_example_deduped(1))
  note t = bad_timestamp_tagged_null [where parse = sample_parse and now = epoch
      and df = sales_example and out = out, THEN conjunct1, THEN mp, OF o, THEN conjunct2,
      rule_format, OF conjI [OF i conjI [OF examples_bad_timestamp(1) examples_bad_timestamp(4)]],
      unfolded examples_bad_timestamp_tags]
  from o t examples_bad_timestamp show "\<exists>out. process_sales sample_parse epoch sales_example = Inr out \<and>
      (drop_duplicates ''sale_id'' (rows sales_example) ! 1) ''timestamp'' = Some (Str ''yesterday'') \<and>
      sample_parse (Str ''yesterday'') = None \<and>
      (rows out ! 1) ''timestamp'' = None \<and>
      (rows out ! 1) ''validation_errors'' =
        Some (Str ''NULL:timestamp; NULL:quantity; NULL:total_amount;'') \<and>
      (rows out ! 1) ''is_valid'' = Some (Bool False)"
    by (simp add: strip_examples)
next
  obtain out where o: "process_customer_events sample_parse epoch events_example = Inr out"
    using events_example_runs by blast
  have i: "1 < length (rows out)"
    using process_customer_events_rows(1) [OF o] by (simp add: events_example_deduped(1))
  note t = bad_timestamp_tagged_null [where parse = sample_parse and now = epoch
      and df = events_example and out = out, THEN conjunct2, THEN conjunct1, THEN mp, OF o,
      THEN conjunct2, rule_format,
      OF conjI [OF i conjI [OF examples_bad_timestamp(2) examples_bad_timestamp(4)]],
      unfolded examples_bad_timestamp_tags]
  from o t examples_bad_timestamp show "\<exists>out. process_customer_events sample_parse epoch events_example = Inr out \<and>
      (drop_duplicates ''event_id'' (rows events_example) ! 1) ''timestamp'' = Some (Str ''yesterday'') \<and>
      (rows out ! 1) ''timestamp'' = None \<and>
      (rows out ! 1) ''validation_errors'' = Some (Str ''NULL:timestamp; INVALID_EVENT_TYPE;'') \<and>
      (rows out ! 1) ''is_valid'' = Some (Bool False)"
    by (simp add: strip_examples)
next
  obtain out where
    o: "process_inventory sample_parse sample_numeric epoch inventory_example = Inr out"
    using inventory_example_runs by blast
  have i: "1 < length (rows out)"
    using process_inventory_rows(1) [OF o] by (simp add: inventory_example_deduped(1))
  note t = bad_timestamp_tagged_null [where parse = sample_parse and now = epoch
      and numeric = sample_numeric and df = inventory_example and out = out,
      THEN conjunct2, THEN conjunct2, THEN mp, OF o, THEN conjunct2, rule_format,
      OF conjI [OF i conjI [OF examples_bad_timestamp(3) examples_bad_timestamp(4)]],
      unfolded examples_bad_timestamp_tags]
  from o t examples_bad_timestamp show
    "\<exists>out. process_inventory sample_parse sample_numeric epoch inventory_example = Inr out \<and>
      (drop_duplicates ''movement_id'' (rows inventory_example) ! 1) ''timestamp'' =
        Some (Str ''yesterday'') \<and>
      (rows out ! 1) ''timestamp'' = None \<and>
      (rows out ! 1) ''validation_errors'' =
        Some (Str ''NULL:timestamp; INVALID_MOVEMENT_TYPE; NON_POSITIVE_QUANTITY;'') \<and>
      (rows out ! 1) ''is_valid'' = Some (Bool False)"
    by (simp add: strip_examples)
qed

subsection \<open>Deduplication keeps the first occurrence\<close>

lemma finalise_keeps_first:
  fixes g :: "row \<Rightarrow> row"
  assumes len: "length errors = length (deduped parse key df)"
    and key: "key \<noteq> ''timestamp''" "key \<notin> set touched"
    and touched: "''timestamp'' \<in> set touched" "''is_valid'' \<in> set touched"
      "''validation_errors'' \<in> set touched" "''processed_at'' \<in> set touched"
    and g: "\<And>r c. c \<notin> set touched \<Longrightarrow> g r c = r c"
  shows "keeps_first_occurrence key touched (rows df)
           (rows (finalise now cols (map g (deduped parse key df)) errors))"
proof -
  let ?raw = "drop_duplicates key (rows df)"
  let ?out = "rows (finalise now cols (map g (deduped parse key df)) errors)"
  have kept: "deduped parse key df = map (to_datetime parse ''timestamp'') ?raw"
    using key(1) by (rule drop_duplicates_to_datetime)
  have len': "length errors = length (map g (deduped parse key df))"
    using len by simp
  have n: "length ?out = length ?raw"
    using length_finalise [OF len'] by (simp add: kept)
  have same: "(?out ! i) c = (?raw ! i) c" if i: "i < length ?raw" and c: "c \<notin> set touched" for i c
  proof -
    from i have i': "i < length (map g (deduped parse key df))" by (simp add: kept)
    from c touched have ne: "c \<noteq> ''timestamp''" "c \<noteq> ''is_valid''"
      "c \<noteq> ''validation_errors''" "c \<noteq> ''processed_at''" by auto
    have "(?out ! i) c = g (to_datetime parse ''timestamp'' (?raw ! i)) c"
      unfolding nth_finalise [OF len' i'] using i ne by (simp add: kept)
    also have "\<dots> = to_datetime parse ''timestamp'' (?raw ! i) c"
      using c by (rule g)
    also have "\<dots> = (?raw ! i) c"
      using ne(1) by (rule to_datetime_other)
    finally show ?thesis .
  qed
  have keys: "map (\<lambda>r. r key) ?out = map (\<lambda>r. r key) ?raw"
    by (rule nth_equalityI) (simp_all add: n same key(2))
  have "distinct (map (\<lambda>r. r key) ?raw)"
    unfolding drop_duplicates_def by (rule drop_dups_distinct)
  then have d: "distinct (map (\<lambda>r. r key) ?out)"
    by (simp only: keys)
  have "set (map (\<lambda>r. r key) ?raw) = set (map (\<lambda>r. r key) (rows df))"
    unfolding drop_duplicates_def drop_dups_keys by simp
  then have s: "set (map (\<lambda>r. r key) ?out) = set (map (\<lambda>r. r key) (rows df))"
    by (simp only: keys)
  have f: "\<forall>r' \<in> set ?out. \<exists>r. find (\<lambda>s. s key = r' key) (rows df) = Some r \<and>
      (\<forall>c. c \<notin> set touched \<longrightarrow> r' c = r c)"
  proof
    fix r' assume "r' \<in> set ?out"
    then obtain i where i: "i < length ?out" and r': "r' = ?out ! i"
      by (auto simp: in_set_conv_nth)
    from i n have i0: "i < length ?raw" by simp
    then have "?raw ! i \<in> set (drop_dups key [] (rows df))"
      unfolding drop_duplicates_def by (rule nth_mem)
    then have "find (\<lambda>s. s key = (?raw ! i) key) (rows df) = Some (?raw ! i)"
      by (rule drop_dups_first)
    moreover have "r' key = (?raw ! i) key"
      unfolding r' using i0 key(2) by (rule same)
    moreover have "\<forall>c. c \<notin> set touched \<longrightarrow> r' c = (?raw ! i) c"
      unfolding r' using same [OF i0] by blast
    ultimately show "\<exists>r. find (\<lambda>s. s key = r' key) (rows df) = Some r \<and>
        (\<forall>c. c \<notin> set touched \<longrightarrow> r' c = r c)"
      by simp
  qed
  show ?thesis by (rule conjI [OF d conjI [OF s f]])
qed

text \<open>
  C4. The output of each processor has exactly one row per key of its input (one row
  for the missing key, if rows lack it), and the row of a key is the first input row
  with that key: it agrees with that row on every column the processor does not
  rewrite (the parsed timestamp, for sales the repaired total, and the three columns
  the cleaning adds).
\<close>

theorem dedup_keeps_first_occurrence:
  "(process_sales parse now df = Inr out \<longrightarrow>
      keeps_first_occurrence ''sale_id''
        [''timestamp'', ''total_amount'', ''is_valid'', ''validation_errors'', ''processed_at'']
        (rows df) (rows out)) \<and>
   (process_customer_events parse now df = Inr out \<longrightarrow>
      keeps_first_occurrence ''event_id''
        [''timestamp'', ''is_valid'', ''validation_errors'', ''processed_at'']
        (rows df) (rows out)) \<and>
   (process_inventory parse numeric now df = Inr out \<longrightarrow>
      keeps_first_occurrence ''movement_id''
        [''timestamp'', ''is_valid'', ''validation_errors'', ''processed_at'']
        (rows df) (rows out))"
proof (intro conjI)
  show "process_sales parse now df = Inr out \<longrightarrow>
      keeps_first_occurrence ''sale_id''
        [''timestamp'', ''total_amount'', ''is_valid'', ''validation_errors'', ''processed_at'']
        (rows df) (rows out)"
  proof (rule impI)
    assume o: "process_sales parse now df = Inr out"
    let ?kept = "deduped parse ''sale_id'' df"
    let ?errs = "null_errors required_cols_sales ?kept (replicate (length ?kept) [])"
    have out: "out = finalise now (columns df) (map fix_total_amount ?kept) ?errs"
      using o unfolding process_sales_def Let_def by (simp split: if_splits)
    have len: "length ?errs = length ?kept"
      by (simp add: length_null_errors)
    show "keeps_first_occurrence ''sale_id''
        [''timestamp'', ''total_amount'', ''is_valid'', ''validation_errors'', ''processed_at'']
        (rows df) (rows out)"
      unfolding out
      by (rule finalise_keeps_first [OF len]) (simp_all add: fix_total_amount_other)
  qed
next
  show "process_customer_events parse now df = Inr out \<longrightarrow>
      keeps_first_occurrence ''event_id''
        [''timestamp'', ''is_valid'', ''validation_errors'', ''processed_at'']
        (rows df) (rows out)"
  proof (rule impI)
    assume o: "process_customer_events parse now df = Inr out"
    let ?kept = "deduped parse ''event_id'' df"
    let ?errs = "add_error
      (\<lambda>r. \<not> isin VALID_EVENT_TYPES (r ''event_type'') \<and> r ''event_type'' \<noteq> None)
      ''INVALID_EVENT_TYPE; '' ?kept
      (null_errors required_cols_events ?kept (replicate (length ?kept) []))"
    have out: "out = finalise now (columns df) (map (\<lambda>r. r) ?kept) ?errs"
      using o unfolding process_customer_events_def Let_def by (simp split: if_splits)
    have len: "length ?errs = length ?kept"
      by (simp add: length_null_errors length_add_error)
    show "keeps_first_occurrence ''event_id''
        [''timestamp'', ''is_valid'', ''validation_errors'', ''processed_at'']
        (rows df) (rows out)"
      unfolding out
      by (rule finalise_keeps_first [OF len]) simp_all
  qed
next
  show "process_inventory parse numeric now df = Inr out \<longrightarrow>
      keeps_first_occurrence ''movement_id''
        [''timestamp'', ''is_valid'', ''validation_errors'', ''processed_at'']
        (rows df) (rows out)"
  proof (rule impI)
    assume o: "process_inventory parse numeric now df = Inr out"
    let ?kept = "deduped parse ''movement_id'' df"
    let ?errs = "add_error (bad_qty numeric) ''NON_POSITIVE_QUANTITY; '' ?kept
      (add_error
        (\<lambda>r. \<not> isin VALID_MOVEMENT_TYPES (r ''movement_type'') \<and> r ''movement_type'' \<noteq> None)
        ''INVALID_MOVEMENT_TYPE; '' ?kept
        (null_errors required_cols_inventory ?kept (replicate (length ?kept) [])))"
    have out: "out = finalise now (columns df) (map (\<lambda>r. r) ?kept) ?errs"
      using o unfolding process_inventory_def Let_def by (simp split: if_splits)
    have len: "length ?errs = length ?kept"
      by (simp add: length_null_errors length_add_error)
    show "keeps_first_occurrence ''movement_id''
        [''timestamp'', ''is_valid'', ''validation_errors'', ''processed_at'']
        (rows df) (rows out)"
      unfolding out
      by (rule finalise_keeps_first [OF len]) simp_all
  qed
qed

lemma examples_keys:
  "set (map (\<lambda>r. r ''sale_id'') (rows sales_example)) = {Some (Str ''s1''), Some (Str ''s2'')}"
  "set (map (\<lambda>r. r ''event_id'') (rows events_example)) = {Some (Str ''e1''), Some (Str ''e2'')}"
  "set (map (\<lambda>r. r ''movement_id'') (rows inventory_example)) =
     {Some (Str ''m1''), Some (Str ''m2'')}"
  by (auto simp: sales_example_def events_example_def inventory_example_def
      sale_def event_def movement_def)

lemma sales_example_first_s1:
  "find (\<lambda>s. s ''sale_id'' = Some (Str ''s1'')) (rows sales_example) = Some r \<Longrightarrow>
   r ''customer_id'' = Some (Str ''c1'')"
  by (auto simp: sales_example_def sale_def)

theorem dedup_keeps_first_occurrence_witness:
  "(\<exists>out. process_sales sample_parse epoch sales_example = Inr out \<and>
      map (\<lambda>r. r ''customer_id'') (rows sales_example) =
        [Some (Str ''c1''), Some (Str ''c2''), Some (Str ''c3'')] \<and>
      distinct (map (\<lambda>r. r ''sale_id'') (rows out)) \<and>
      set (map (\<lambda>r. r ''sale_id'') (rows out)) = {Some (Str ''s1''), Some (Str ''s2'')} \<and>
      (rows out ! 0) ''sale_id'' = Some (Str ''s1'') \<and>
      (rows out ! 0) ''customer_id'' = Some (Str ''c1'')) \<and>
   (\<exists>out. process_customer_events sample_parse epoch events_example = Inr out \<and>
      distinct (map (\<lambda>r. r ''event_id'') (rows out)) \<and>
      set (map (\<lambda>r. r ''event_id'') (rows out)) = {Some (Str ''e1''), Some (Str ''e2'')}) \<and>
   (\<exists>out. process_inventory sample_parse sample_numeric epoch inventory_example = Inr out \<and>
      distinct (map (\<lambda>r. r ''movement_id'') (rows out)) \<and>
      set (map (\<lambda>r. r ''movement_id'') (rows out)) = {Some (Str ''m1''), Some (Str ''m2'')})"
proof (intro conjI)
  obtain out where o: "process_sales sample_parse epoch sales_example = Inr out"
    using sales_example_runs by blast
  note t = dedup_keeps_first_occurrence [where parse = sample_parse and now = epoch
      and df = sales_example and out = out, THEN conjunct1, THEN mp, OF o]
  have i: "0 < length (deduped sample_parse ''sale_id'' sales_example)"
    by (simp add: sales_example_deduped(1))
  then have mem: "rows out ! 0 \<in> set (rows out)"
    using process_sales_rows(1) [OF o] by simp
  have k: "(rows out ! 0) ''sale_id'' = Some (Str ''s1'')"
    unfolding process_sales_rows(2) [OF o i]
    by (simp add: fix_total_amount_other sales_example_first_row(1))
  from t [THEN conjunct2, THEN conjunct2, rule_format, OF mem] obtain r where
    r: "find (\<lambda>s. s ''sale_id'' = (rows out ! 0) ''sale_id'') (rows sales_example) = Some r"
      "\<forall>c. c \<notin> set [''timestamp'', ''total_amount'', ''is_valid'', ''validation_errors'',
          ''processed_at''] \<longrightarrow> (rows out ! 0) c = r c"
    by (elim exE conjE)
  from r(1) have "r ''customer_id'' = Some (Str ''c1'')"
    unfolding k by (rule sales_example_first_s1)
  with r(2) have c: "(rows out ! 0) ''customer_id'' = Some (Str ''c1'')"
    by simp
  have cs: "map (\<lambda>r. r ''customer_id'') (rows sales_example) =
        [Some (Str ''c1''), Some (Str ''c2''), Some (Str ''c3'')]"
    by (simp add: sales_example_def sale_def)
  note d = t [THEN conjunct1]
  note s = t [THEN conjunct2, THEN conjunct1, unfolded examples_keys]
  show "\<exists>out. process_sales sample_parse epoch sales_example = Inr out \<and>
      map (\<lambda>r. r ''customer_id'') (rows sales_example) =
        [Some (Str ''c1''), Some (Str ''c2''), Some (Str ''c3'')] \<and>
      distinct (map (\<lambda>r. r ''sale_id'') (rows out)) \<and>
      set (map (\<lambda>r. r ''sale_id'') (rows out)) = {Some (Str ''s1''), Some (Str ''s2'')} \<and>
      (rows out ! 0) ''sale_id'' = Some (Str ''s1'') \<and>
      (rows out ! 0) ''customer_id'' = Some (Str ''c1'')"
    by (rule exI [of _ out]) (intro conjI o cs d s k c)
next
  obtain out where o: "process_customer_events sample_parse epoch events_example = Inr out"
    using events_example_runs by blast
  note t = dedup_keeps_first_occurrence [where parse = sample_parse and now = epoch
      and df = events_example and out = out, THEN conjunct2, THEN conjunct1, THEN mp, OF o]
  note d = t [THEN conjunct1]
  note s = t [THEN conjunct2, THEN conjunct1, unfolded examples_keys]
  show "\<exists>out. process_customer_events sample_parse epoch events_example = Inr out \<and>
      distinct (map (\<lambda>r. r ''event_id'') (rows out)) \<and>
      set (map (\<lambda>r. r ''event_id'') (rows out)) = {Some (Str ''e1''), Some (Str ''e2'')}"
    by (rule exI [of _ out]) (intro conjI o d s)
next
  obtain out where
    o: "process_inventory sample_parse sample_numeric epoch inventory_example = Inr out"
    using inventory_example_runs by blast
  note t = dedup_keeps_first_occurrence [where parse = sample_parse and now = epoch
      and numeric = sample_numeric and df = inventory_example and out = out,
      THEN conjunct2, THEN conjunct2, THEN mp, OF o]
  note d = t [THEN conjunct1]
  note s = t [THEN conjunct2, THEN conjunct1, unfolded examples_keys]
  show
    "\<exists>out. process_inventory sample_parse sample_numeric epoch inventory_example = Inr out \<and>
      distinct (map (\<lambda>r. r ''movement_id'') (rows out)) \<and>
      set (map (\<lambda>r. r ''movement_id'') (rows out)) = {Some (Str ''m1''), Some (Str ''m2'')}"
    by (rule exI [of _ out]) (intro conjI o d s)
qed

section \<open>Properties of a cleaning run\<close>

lemma mixed_world_unprocessed:
  "get_unprocessed_bronze_files ''sales'' mixed_world =
     Inr [''bronze/sales/a.csv'', ''bronze/sales/b.csv'']"
  by (simp add: get_unprocessed_bronze_files_def mixed_world_def empty_world_def
      load_processed_state_def sorted_paths_def)

lemma mixed_world_read:
  "read_csv_files (case bronze mixed_world ''sales'' of None \<Rightarrow> [] | Some dir \<Rightarrow> dir)
     [''bronze/sales/a.csv'', ''bronze/sales/b.csv''] = [sales_example]"
  by (simp add: read_csv_files_def mixed_world_def empty_world_def)

lemma concat_frames_sales_example: "concat_frames [sales_example] = sales_example"
  by (simp add: concat_frames_def sales_example_def set_column_def)

lemma mixed_world_clock: "utcnow mixed_world = (epoch, mixed_world)"
  by (simp add: utcnow_def mixed_world_def empty_world_def)

lemma mixed_world_run:
  assumes "process_sales sample_parse epoch sales_example = Inr cleaned"
  shows "run_domain sample_parse sample_numeric ''sales'' mixed_world =
     mark_bronze_files_processed ''sales'' [''bronze/sales/a.csv'', ''bronze/sales/b.csv'']
       (snd (save_to_silver ''sales'' cleaned mixed_world))"
  by (simp add: run_domain_def mixed_world_unprocessed mixed_world_read
      concat_frames_sales_example PROCESSORS_def mixed_world_clock assms Let_def split_beta)

text \<open>
  C2 (what the code does). The sales domain has two new bronze files: \<open>a.csv\<close> is
  readable, \<open>b.csv\<close> is not. The run cleans the rows of \<open>a.csv\<close> and then marks both
  files processed: the next run finds no unprocessed file, so \<open>b.csv\<close> is never read
  again.
\<close>

theorem unreadable_batch_marked_processed:
  "get_unprocessed_bronze_files ''sales'' mixed_world =
     Inr [''bronze/sales/a.csv'', ''bronze/sales/b.csv''] \<and>
   read_csv_files (case bronze mixed_world ''sales'' of None \<Rightarrow> [] | Some dir \<Rightarrow> dir)
     [''bronze/sales/a.csv'', ''bronze/sales/b.csv''] = [sales_example] \<and>
   (\<exists>st'. run_domain sample_parse sample_numeric ''sales'' mixed_world = Inr st' \<and>
      state_files st' ''sales'' =
        Some (Listed [''bronze/sales/a.csv'', ''bronze/sales/b.csv'']) \<and>
      get_unprocessed_bronze_files ''sales'' st' = Inr [])"
proof -
  obtain cleaned where c: "process_sales sample_parse epoch sales_example = Inr cleaned"
    using sales_example_runs by blast
  let ?st' = "save_processed_state ''sales''
      ({} \<union> set [''bronze/sales/a.csv'', ''bronze/sales/b.csv''])
      (snd (save_to_silver ''sales'' cleaned mixed_world))"
  have st: "state_files (snd (save_to_silver ''sales'' cleaned mixed_world)) ''sales'' = None"
    by (simp add: save_to_silver_def utcnow_def mixed_world_def empty_world_def Let_def)
  have br: "bronze (snd (save_to_silver ''sales'' cleaned mixed_world)) ''sales'' =
      Some [(''bronze/sales/a.csv'', Some sales_example), (''bronze/sales/b.csv'', None)]"
    by (simp add: save_to_silver_def utcnow_def mixed_world_def empty_world_def Let_def)
  have run: "run_domain sample_parse sample_numeric ''sales'' mixed_world = Inr ?st'"
    unfolding mixed_world_run [OF c]
    by (simp add: mark_bronze_files_processed_def load_processed_state_def st)
  have ledger: "state_files ?st' ''sales'' =
      Some (Listed [''bronze/sales/a.csv'', ''bronze/sales/b.csv''])"
    by (simp add: save_processed_state_def sorted_list_of_set_sort_remdups)
  have again: "get_unprocessed_bronze_files ''sales'' ?st' = Inr []"
    unfolding get_unprocessed_bronze_files_def load_processed_state_def ledger
    by (simp add: bronze_after_save br sorted_paths_def)
  from run ledger again have "\<exists>st'. run_domain sample_parse sample_numeric ''sales'' mixed_world = Inr st' \<and>
      state_files st' ''sales'' =
        Some (Listed [''bronze/sales/a.csv'', ''bronze/sales/b.csv'']) \<and>
      get_unprocessed_bronze_files ''sales'' st' = Inr []"
    by (intro exI [of _ ?st'] conjI)
  with mixed_world_unprocessed mixed_world_read show ?thesis
    by (intro conjI)
qed

text \<open>The sibling path: when no new file is readable, nothing is marked.\<close>

lemma no_readable_batch_nothing_marked:
  assumes "get_unprocessed_bronze_files domain st = Inr files"
    and "read_csv_files (case bronze st domain of None \<Rightarrow> [] | Some dir \<Rightarrow> dir) files = []"
  shows "run_domain parse numeric domain st = Inr st"
  using assms by (simp add: run_domain_def)

section \<open>Properties of the gold store\<close>

lemma same_second_clock:
  "clock same_second_world 0 \<noteq> clock same_second_world 1"
  "strftime (clock same_second_world 0) = ''20250101_000000''"
  "strftime (clock same_second_world 1) = ''20250101_000000''"
  by (simp_all add: same_second_world_def empty_world_def epoch_def strftime_def pad_def dec.simps)

text \<open>
  C8 (what the code does). Two calls of \<open>save_to_gold\<close> for one table, at two
  different instants of the same second, get the same file name: the second snapshot
  replaces the first, and one file is left.
\<close>

theorem snapshot_overwritten_within_a_second:
  "clock same_second_world 0 \<noteq> clock same_second_world 1 \<and>
   snapshot 1 \<noteq> snapshot 2 \<and>
   fst (save_to_gold ''daily_sales_summary'' (snapshot 1) same_second_world) =
     ''gold/daily_sales_summary/daily_sales_summary_20250101_000000.parquet'' \<and>
   fst (save_to_gold ''daily_sales_summary'' (snapshot 2)
          (snd (save_to_gold ''daily_sales_summary'' (snapshot 1) same_second_world))) =
     ''gold/daily_sales_summary/daily_sales_summary_20250101_000000.parquet'' \<and>
   gold (snd (save_to_gold ''daily_sales_summary'' (snapshot 1) same_second_world)) =
     [(''gold/daily_sales_summary/daily_sales_summary_20250101_000000.parquet'', snapshot 1)] \<and>
   gold (snd (save_to_gold ''daily_sales_summary'' (snapshot 2)
          (snd (save_to_gold ''daily_sales_summary'' (snapshot 1) same_second_world)))) =
     [(''gold/daily_sales_summary/daily_sales_summary_20250101_000000.parquet'', snapshot 2)]"
proof -
  have ne: "snapshot 1 \<noteq> snapshot 2"
  proof
    assume "snapshot 1 = snapshot 2"
    then have "map (\<lambda>r. r ''total_revenue'') (rows (snapshot 1)) =
        map (\<lambda>r. r ''total_revenue'') (rows (snapshot 2))" by simp
    then show False by (simp add: snapshot_def)
  qed
  have g0: "gold same_second_world = []"
    by (simp add: same_second_world_def empty_world_def)
  show ?thesis
    using ne same_second_clock
    by (simp add: save_to_gold_def utcnow_def Let_def write_file_def g0)
qed

text \<open>When the two file names differ, the earlier snapshot stays readable.\<close>

lemma save_to_gold_keeps_other_files:
  assumes "map_of (gold st) p = Some old" and "fst (save_to_gold table_name df st) \<noteq> p"
  shows "map_of (gold (snd (save_to_gold table_name df st))) p = Some old"
proof -
  have keep: "map_of (filter (\<lambda>e. fst e \<noteq> q) fs) p = map_of fs p" if "q \<noteq> p"
    for q and fs :: "(string \<times> frame) list"
    using that by (induction fs) auto
  show ?thesis
    using assms
    by (simp add: save_to_gold_def utcnow_def Let_def write_file_def keep split: if_splits)
qed

section \<open>Properties of the aggregation stage\<close>

subsection \<open>The rollups read the valid rows only\<close>











subsection \<open>The net position rollup\<close>

















end
